theory Spec2Isabelle
  imports Complex_Main
begin

section \<open>Vectors\<close>

text \<open>
  The simulator of \<^verbatim>\<open>Defince.py\<close> computes with Python floats. They are modelled as
  the real numbers: rounding, overflow and NaN are outside this development.
  A Python truth test \<^verbatim>\<open>if scalar\<close> on a float is \<open>scalar \<noteq> 0\<close>.
\<close>

record Vector3D =
  x :: real
  y :: real
  z :: real

definition vec :: "real \<Rightarrow> real \<Rightarrow> real \<Rightarrow> Vector3D" where
  "vec a b c = \<lparr>x = a, y = b, z = c\<rparr>"

definition vadd :: "Vector3D \<Rightarrow> Vector3D \<Rightarrow> Vector3D" where
  "vadd u w = vec (x u + x w) (y u + y w) (z u + z w)"

definition vsub :: "Vector3D \<Rightarrow> Vector3D \<Rightarrow> Vector3D" where
  "vsub u w = vec (x u - x w) (y u - y w) (z u - z w)"

definition vmul :: "Vector3D \<Rightarrow> real \<Rightarrow> Vector3D" where
  "vmul u scalar = vec (x u * scalar) (y u * scalar) (z u * scalar)"

definition truediv :: "Vector3D \<Rightarrow> real \<Rightarrow> Vector3D" where
  "truediv u scalar =
     (if scalar \<noteq> 0 then vec (x u / scalar) (y u / scalar) (z u / scalar)
      else vec (x u) (y u) (z u))"

definition magnitude :: "Vector3D \<Rightarrow> real" where
  "magnitude u = sqrt ((x u)\<^sup>2 + (y u)\<^sup>2 + (z u)\<^sup>2)"

definition normalize_v :: "Vector3D \<Rightarrow> Vector3D" where
  "normalize_v u =
     (let mag = magnitude u
      in if mag \<noteq> 0 then vec (x u / mag) (y u / mag) (z u / mag) else vec 0 0 0)"

definition dot :: "Vector3D \<Rightarrow> Vector3D \<Rightarrow> real" where
  "dot u w = x u * x w + y u * y w + z u * z w"

definition to_array :: "Vector3D \<Rightarrow> real list" where
  "to_array u = [x u, y u, z u]"

section \<open>Threats\<close>

text \<open>
  The three classes \<^verbatim>\<open>Threat\<close>, \<^verbatim>\<open>Missile\<close> and \<^verbatim>\<open>Jet\<close> share the slots of
  \<^verbatim>\<open>Threat\<close>; the class of an object, with the slot its subclass adds, is its \<open>kind\<close>.
\<close>

datatype kind = Plain | Missile (gravity: Vector3D) | Jet (evasion_strength: real)

record Threat =
  t_position :: Vector3D
  t_velocity :: Vector3D
  t_name :: string
  t_destroyed :: bool
  t_trail :: "real list list"
  targeted :: bool
  hit_ground :: bool
  t_kind :: kind

definition new_Threat :: "kind \<Rightarrow> Vector3D \<Rightarrow> Vector3D \<Rightarrow> string \<Rightarrow> Threat" where
  "new_Threat k pos vel nm =
     \<lparr>t_position = pos, t_velocity = vel, t_name = nm, t_destroyed = False,
      t_trail = [], targeted = False, hit_ground = False, t_kind = k\<rparr>"

definition new_Missile :: "Vector3D \<Rightarrow> Vector3D \<Rightarrow> string \<Rightarrow> Threat" where
  "new_Missile = new_Threat (Missile (vec 0 0 (- 98 / 10)))"


text \<open>\<^verbatim>\<open>trail.append(p); if len(trail) > 200: trail.pop(0)\<close>\<close>

definition push_trail :: "real list list \<Rightarrow> real list \<Rightarrow> real list list" where
  "push_trail trail p =
     (let trail1 = trail @ [p] in if length trail1 > 200 then tl trail1 else trail1)"

definition Threat_update :: "real \<Rightarrow> Threat \<Rightarrow> Threat" where
  "Threat_update dt t =
     (if t_destroyed t \<or> hit_ground t then t
      else t\<lparr>t_trail := push_trail (t_trail t) (to_array (t_position t)),
             t_position := vadd (t_position t) (vmul (t_velocity t) dt)\<rparr>)"

definition Missile_update :: "Vector3D \<Rightarrow> real \<Rightarrow> Threat \<Rightarrow> Threat" where
  "Missile_update g dt t =
     (if t_destroyed t \<or> hit_ground t then t
      else Threat_update dt (t\<lparr>t_velocity := vadd (t_velocity t) (vmul g dt)\<rparr>))"

text \<open>
  \<^verbatim>\<open>Jet.update\<close> draws three numbers with \<^verbatim>\<open>random.uniform\<close>; the model takes the
  three numbers drawn as its argument \<open>(rx, ry, rz)\<close>.
\<close>

definition Jet_velocity :: "real \<Rightarrow> real \<Rightarrow> real \<times> real \<times> real \<Rightarrow> Vector3D \<Rightarrow> Vector3D" where
  "Jet_velocity es dt draw v =
     (case draw of (rx, ry, rz) \<Rightarrow>
        let ev = vmul (normalize_v (vec rx ry rz)) (es * dt);
            v1 = vadd v ev;
            speed = magnitude v1
        in if speed > 800 then vmul (normalize_v v1) 800
           else if speed < 200 then vmul (normalize_v v1) 200
           else v1)"

definition Jet_update :: "real \<Rightarrow> real \<Rightarrow> real \<times> real \<times> real \<Rightarrow> Threat \<Rightarrow> Threat" where
  "Jet_update es dt draw t =
     (if t_destroyed t \<or> hit_ground t then t
      else Threat_update dt (t\<lparr>t_velocity := Jet_velocity es dt draw (t_velocity t)\<rparr>))"

text \<open>The call \<^verbatim>\<open>threat.update(dt)\<close>, dispatched on the class of the object.\<close>

definition update_threat :: "real \<Rightarrow> real \<times> real \<times> real \<Rightarrow> Threat \<Rightarrow> Threat" where
  "update_threat dt draw t =
     (case t_kind t of
        Plain \<Rightarrow> Threat_update dt t
      | Missile g \<Rightarrow> Missile_update g dt t
      | Jet es \<Rightarrow> Jet_update es dt draw t)"

section \<open>Interceptors\<close>

text \<open>
  Threat objects are shared: the application's list holds them and every interceptor
  refers to its target. They live in a store, a list of \<open>Threat\<close> values, and a
  reference to a threat is its index there. \<^verbatim>\<open>target\<close> may be \<^verbatim>\<open>None\<close>.
\<close>

record Interceptor =
  i_position :: Vector3D
  i_velocity :: Vector3D
  i_name :: string
  i_destroyed :: bool
  i_trail :: "real list list"
  target :: "nat option"
  lifetime :: real
  elapsed :: real

definition new_Interceptor ::
  "Vector3D \<Rightarrow> Vector3D \<Rightarrow> string \<Rightarrow> nat option \<Rightarrow> real \<Rightarrow> Interceptor" where
  "new_Interceptor pos vel nm tg lt =
     \<lparr>i_position = pos, i_velocity = vel, i_name = nm, i_destroyed = False,
      i_trail = [], target = tg, lifetime = lt, elapsed = 0\<rparr>"

text \<open>
  \<^verbatim>\<open>Interceptor.update\<close> changes the interceptor and, on expiry, the \<^verbatim>\<open>targeted\<close> flag
  of its target: it takes the threat store and returns it with the interceptor.
\<close>

definition release_target :: "nat option \<Rightarrow> Threat list \<Rightarrow> Threat list" where
  "release_target tg ts =
     (case tg of
        None \<Rightarrow> ts
      | Some r \<Rightarrow>
          if \<not> t_destroyed (ts ! r) \<and> \<not> hit_ground (ts ! r)
          then ts[r := (ts ! r)\<lparr>targeted := False\<rparr>] else ts)"

definition Interceptor_update ::
  "real \<Rightarrow> Interceptor \<Rightarrow> Threat list \<Rightarrow> Interceptor \<times> Threat list" where
  "Interceptor_update dt i ts =
     (if i_destroyed i then (i, ts)
      else let i1 = i\<lparr>elapsed := elapsed i + dt\<rparr>
           in if elapsed i1 > lifetime i1
              then (i1\<lparr>i_destroyed := True\<rparr>, release_target (target i1) ts)
              else (i1\<lparr>i_trail := push_trail (i_trail i1) (to_array (i_position i1)),
                       i_position := vadd (i_position i1) (vmul (i_velocity i1) dt)\<rparr>, ts))"

section \<open>The defense system\<close>

text \<open>
  Interceptor objects live in a store of their own; \<^verbatim>\<open>self.interceptors\<close> is a list of
  references into it. \<^verbatim>\<open>alert_callback\<close> is either \<^verbatim>\<open>None\<close> or a sink: the field says
  whether a sink is set, and \<open>alerts\<close> records the calls the sink receives.
\<close>

record DefenseSystem =
  d_position :: Vector3D
  radar_range :: real
  interceptor_speed :: real
  max_interceptors :: int
  alert_callback :: bool
  interceptors :: "nat list"
  destruction_messages :: "string list"
  total_launches :: int
  total_intercepted :: int
  total_missed :: int

record world =
  threat_store :: "Threat list"
  interceptor_store :: "Interceptor list"
  defense :: DefenseSystem
  alerts :: "(string \<times> string) list"

definition new_DefenseSystem :: "Vector3D \<Rightarrow> real \<Rightarrow> real \<Rightarrow> int \<Rightarrow> bool \<Rightarrow> DefenseSystem" where
  "new_DefenseSystem pos rr sp mx cb =
     \<lparr>d_position = pos, radar_range = rr, interceptor_speed = sp, max_interceptors = mx,
      alert_callback = cb, interceptors = [], destruction_messages = [],
      total_launches = 0, total_intercepted = 0, total_missed = 0\<rparr>"

text \<open>
  \<^verbatim>\<open>self.destruction_messages.append(msg)\<close> followed by
  \<^verbatim>\<open>if self.alert_callback: self.alert_callback(msg, alert_type=ty)\<close>.
\<close>

definition log_event :: "string \<Rightarrow> string \<Rightarrow> world \<Rightarrow> world" where
  "log_event msg ty w =
     (let w1 = w\<lparr>defense := (defense w)
                 \<lparr>destruction_messages := destruction_messages (defense w) @ [msg]\<rparr>\<rparr>
      in if alert_callback (defense w) then w1\<lparr>alerts := alerts w @ [(msg, ty)]\<rparr> else w1)"

subsection \<open>Intercept time\<close>

text \<open>The coefficients \<^verbatim>\<open>a\<close>, \<^verbatim>\<open>b\<close>, \<^verbatim>\<open>c\<close> of \<^verbatim>\<open>_estimate_intercept_time\<close>.\<close>

definition coeff_a :: "DefenseSystem \<Rightarrow> Threat \<Rightarrow> real" where
  "coeff_a d threat = dot (t_velocity threat) (t_velocity threat) - interceptor_speed d * interceptor_speed d"

definition coeff_b :: "DefenseSystem \<Rightarrow> Threat \<Rightarrow> real" where
  "coeff_b d threat = 2 * dot (vsub (t_position threat) (d_position d)) (t_velocity threat)"

definition coeff_c :: "DefenseSystem \<Rightarrow> Threat \<Rightarrow> real" where
  "coeff_c d threat =
     dot (vsub (t_position threat) (d_position d)) (vsub (t_position threat) (d_position d))"

definition estimate_intercept_time :: "DefenseSystem \<Rightarrow> Threat \<Rightarrow> real option" where
  "estimate_intercept_time d threat =
     (let r = vsub (t_position threat) (d_position d);
          v = t_velocity threat;
          s = interceptor_speed d;
          a = dot v v - s * s;
          b = 2 * dot r v;
          c = dot r r;
          disc = b * b - 4 * a * c
      in if disc < 0 then None
         else if \<bar>a\<bar> < 1 / 1000000 then
           (if \<bar>b\<bar> < 1 / 1000000 then None
            else let t = - c / b in if t > 0 then Some t else None)
         else let sqrt_disc = sqrt disc;
                  t1 = (- b + sqrt_disc) / (2 * a);
                  t2 = (- b - sqrt_disc) / (2 * a);
                  times = filter (\<lambda>t. t > 0) [t1, t2]
              in if times \<noteq> [] then Some (min_list times) else None)"


subsection \<open>Names\<close>

text \<open>The decimal numeral of a natural number, as an f-string prints it.\<close>

function str_nat :: "nat \<Rightarrow> string" where
  "str_nat n =
     (if n < 10 then [''0123456789'' ! n]
      else str_nat (n div 10) @ [''0123456789'' ! (n mod 10)])"
  by pat_completeness auto
termination
  by (relation "measure (\<lambda>n. n)") auto

subsection \<open>Launching\<close>

text \<open>
  \<^verbatim>\<open>launch_interceptor(threat, t_est)\<close> builds the interceptor and registers nothing.
  The threat object is given by the store and its reference \<open>r\<close>.
\<close>

definition launch_interceptor :: "DefenseSystem \<Rightarrow> Threat list \<Rightarrow> nat \<Rightarrow> real \<Rightarrow> Interceptor" where
  "launch_interceptor d ts r t_est =
     (let threat = ts ! r;
          intercept_point = vadd (t_position threat) (vmul (t_velocity threat) t_est);
          direction = normalize_v (vsub intercept_point (d_position d));
          velocity = vmul direction (interceptor_speed d);
          name = ''I'' @ str_nat (length (interceptors d) + 1);
          lifetime = t_est * 2 + 1
      in new_Interceptor (vec (x (d_position d)) (y (d_position d)) (z (d_position d)))
           velocity name (Some r) lifetime)"

text \<open>
  The three statements that the automatic and the manual path share:
  \<^verbatim>\<open>self.interceptors.append(interceptor); threat.targeted = True; self.total_launches += 1\<close>.
  The new object gets the next free place of the interceptor store.
\<close>

definition register_interceptor :: "nat \<Rightarrow> Interceptor \<Rightarrow> world \<Rightarrow> world" where
  "register_interceptor r i w =
     w\<lparr>interceptor_store := interceptor_store w @ [i],
       threat_store := (threat_store w)[r := (threat_store w ! r)\<lparr>targeted := True\<rparr>],
       defense := (defense w)
         \<lparr>interceptors := interceptors (defense w) @ [length (interceptor_store w)],
          total_launches := total_launches (defense w) + 1\<rparr>\<rparr>"

subsection \<open>The assignment of interceptors\<close>

datatype py_error = KeyError | IndexError | StopIteration

text \<open>The two values of a variable of the search, \<^verbatim>\<open>'target'\<close> and \<^verbatim>\<open>'not_target'\<close>.\<close>

datatype choice = Target | NotTarget

text \<open>
  A Python \<^verbatim>\<open>dict\<close>, keys in insertion order: \<^verbatim>\<open>d[k] = v\<close> keeps the place of a key
  that is present and appends a new one; \<^verbatim>\<open>del d[k]\<close> raises \<^verbatim>\<open>KeyError\<close> when the key
  is absent. Threat objects are hashed and compared by identity, so in the defense
  system the keys are references.
\<close>

fun dict_set :: "'k \<Rightarrow> 'v \<Rightarrow> ('k \<times> 'v) list \<Rightarrow> ('k \<times> 'v) list" where
  "dict_set k v [] = [(k, v)]"
| "dict_set k v (p # ps) = (if fst p = k then (k, v) # ps else p # dict_set k v ps)"

fun dict_get :: "('k \<times> 'v) list \<Rightarrow> 'k \<Rightarrow> 'v option" where
  "dict_get [] k = None"
| "dict_get (p # ps) k = (if fst p = k then Some (snd p) else dict_get ps k)"

fun dict_del :: "'k \<Rightarrow> ('k \<times> 'v) list \<Rightarrow> py_error + ('k \<times> 'v) list" where
  "dict_del k [] = Inl KeyError"
| "dict_del k (p # ps) =
     (if fst p = k then Inr ps
      else case dict_del k ps of Inl e \<Rightarrow> Inl e | Inr ps' \<Rightarrow> Inr (p # ps'))"

definition is_consistent :: "int \<Rightarrow> ('k \<times> choice) list \<Rightarrow> bool" where
  "is_consistent available_slots assignment =
     (let count = int (length (filter (\<lambda>v. v = Target) (map snd assignment)))
      in count \<le> available_slots)"

text \<open>The truth test \<^verbatim>\<open>if result\<close>: \<^verbatim>\<open>None\<close> and the empty dict are false.\<close>

definition truthy :: "('k \<times> 'v) list option \<Rightarrow> bool" where
  "truthy res = (case res of None \<Rightarrow> False | Some dict \<Rightarrow> dict \<noteq> [])"

text \<open>
  One round of the loop \<^verbatim>\<open>for value in ['target', 'not_target']\<close>, after the assignment
  \<^verbatim>\<open>assignment[variable] = value\<close>: given the outcome of
  \<^verbatim>\<open>if is_consistent(assignment): result = backtrack(var_index + 1)\<close>, either return the
  result, or delete the variable and go on. The shared dict \<^verbatim>\<open>assignment\<close> is threaded
  through the calls.
\<close>

datatype ('r, 's) flow = Return 'r 's | Continue 's

definition after_attempt ::
  "'k \<Rightarrow> py_error + (('k \<times> choice) list option \<times> ('k \<times> choice) list)
     \<Rightarrow> py_error + (('k \<times> choice) list option, ('k \<times> choice) list) flow" where
  "after_attempt variable attempt =
     (case attempt of
        Inl e \<Rightarrow> Inl e
      | Inr (result, assignment) \<Rightarrow>
          if truthy result then Inr (Return result assignment)
          else (case dict_del variable assignment of
                  Inl e \<Rightarrow> Inl e
                | Inr assignment' \<Rightarrow> Inr (Continue assignment')))"

function backtrack ::
  "'k list \<Rightarrow> int \<Rightarrow> nat \<Rightarrow> ('k \<times> choice) list
     \<Rightarrow> py_error + (('k \<times> choice) list option \<times> ('k \<times> choice) list)" where
  "backtrack threats available_slots var_index assignment =
     (if var_index = length threats then Inr (Some assignment, assignment)
      else if var_index > length threats then Inl IndexError
      else
        let variable = threats ! var_index;
            a1 = dict_set variable Target assignment
        in case after_attempt variable
                  (if is_consistent available_slots a1
                   then backtrack threats available_slots (var_index + 1) a1
                   else Inr (None, a1)) of
             Inl e \<Rightarrow> Inl e
           | Inr (Return result a2) \<Rightarrow> Inr (result, a2)
           | Inr (Continue a2) \<Rightarrow>
               (let a3 = dict_set variable NotTarget a2
                in case after_attempt variable
                          (if is_consistent available_slots a3
                           then backtrack threats available_slots (var_index + 1) a3
                           else Inr (None, a3)) of
                     Inl e \<Rightarrow> Inl e
                   | Inr (Return result a4) \<Rightarrow> Inr (result, a4)
                   | Inr (Continue a4) \<Rightarrow> Inr (None, a4)))"
  by pat_completeness auto
termination
  by (relation "measure (\<lambda>(threats, available_slots, var_index, assignment).
        length threats - var_index)") auto

definition assign_interceptors_csp :: "'k list \<Rightarrow> int \<Rightarrow> py_error + 'k list" where
  "assign_interceptors_csp threats available_slots =
     (case backtrack threats available_slots 0 [] of
        Inl e \<Rightarrow> Inl e
      | Inr (result, assignment) \<Rightarrow>
          if truthy result
          then Inr (filter (\<lambda>threat. dict_get (the result) threat = Some Target) threats)
          else Inr [])"

text \<open>
  The greedy selection of the specification: the first
  \<open>min(available_capacity, number_of_candidates)\<close> threats of the ordered list.
\<close>

definition greedy_prefix :: "'k list \<Rightarrow> int \<Rightarrow> 'k list" where
  "greedy_prefix threats available_capacity =
     take (nat (min available_capacity (int (length threats)))) threats"

text \<open>
  What the search leaves in \<^verbatim>\<open>assignment\<close> for the rest of the list, when \<open>c\<close> threats
  are targets already: the next threats are targets as long as the capacity \<open>k\<close> allows.
\<close>

fun fill :: "int \<Rightarrow> int \<Rightarrow> 'k list \<Rightarrow> ('k \<times> choice) list" where
  "fill k c [] = []"
| "fill k c (t # ts) =
     (if c + 1 \<le> k then (t, Target) # fill k (c + 1) ts else (t, NotTarget) # fill k c ts)"

definition targets :: "('k \<times> choice) list \<Rightarrow> int" where
  "targets a = int (length (filter (\<lambda>v. v = Target) (map snd a)))"

subsection \<open>Detection and launch\<close>

text \<open>The first loop of \<^verbatim>\<open>detect_and_launch\<close>, which fills \<^verbatim>\<open>detectable\<close>.\<close>

fun detect :: "DefenseSystem \<Rightarrow> Threat list \<Rightarrow> nat list \<Rightarrow> (nat \<times> real) list" where
  "detect d ts [] = []"
| "detect d ts (r # rs) =
     (let threat = ts ! r
      in if t_destroyed threat \<or> targeted threat \<or> hit_ground threat then detect d ts rs
         else let dist = magnitude (vsub (t_position threat) (d_position d))
              in if dist \<le> radar_range d
                 then (case estimate_intercept_time d threat of
                         None \<Rightarrow> detect d ts rs
                       | Some t_est \<Rightarrow>
                           if t_est \<noteq> 0 \<and> t_est > 0 then (r, t_est) # detect d ts rs
                           else detect d ts rs)
                 else detect d ts rs)"

text \<open>
  The test of the first loop of \<^verbatim>\<open>detect_and_launch\<close> on one threat: it is a candidate
  when it is not destroyed, not targeted, not on the ground, within radar range, and has
  a positive intercept time.
\<close>

definition detectable_threat :: "DefenseSystem \<Rightarrow> Threat \<Rightarrow> bool" where
  "detectable_threat d threat =
     (\<not> (t_destroyed threat \<or> targeted threat \<or> hit_ground threat)
      \<and> magnitude (vsub (t_position threat) (d_position d)) \<le> radar_range d
      \<and> (case estimate_intercept_time d threat of None \<Rightarrow> False | Some t_est \<Rightarrow> t_est > 0))"

text \<open>\<^verbatim>\<open>next(te for tr, te in detectable if tr == threat)\<close>\<close>

fun next_t_est :: "(nat \<times> real) list \<Rightarrow> nat \<Rightarrow> py_error + real" where
  "next_t_est [] threat = Inl StopIteration"
| "next_t_est ((tr, te) # rest) threat = (if tr = threat then Inr te else next_t_est rest threat)"

definition launch_for :: "nat \<Rightarrow> real \<Rightarrow> world \<Rightarrow> world" where
  "launch_for r t_est w =
     (let interceptor = launch_interceptor (defense w) (threat_store w) r t_est;
          msg = ''Interceptor '' @ i_name interceptor @ '' launched for ''
                @ t_name (threat_store w ! r)
      in log_event msg ''launch'' (register_interceptor r interceptor w))"

fun launch_selected :: "(nat \<times> real) list \<Rightarrow> nat list \<Rightarrow> world \<Rightarrow> py_error + world" where
  "launch_selected detectable [] w = Inr w"
| "launch_selected detectable (r # rs) w =
     (case next_t_est detectable r of
        Inl e \<Rightarrow> Inl e
      | Inr t_est \<Rightarrow> launch_selected detectable rs (launch_for r t_est w))"

definition detect_and_launch :: "nat list \<Rightarrow> world \<Rightarrow> py_error + world" where
  "detect_and_launch threats w =
     (let detectable = detect (defense w) (threat_store w) threats
      in if detectable = [] then Inr w
         else let detectable = sort_key snd detectable;
                  threat_list = map fst detectable;
                  available_slots =
                    max_interceptors (defense w) - int (length (interceptors (defense w)))
              in case assign_interceptors_csp threat_list available_slots of
                   Inl e \<Rightarrow> Inl e
                 | Inr selected_threats \<Rightarrow> launch_selected detectable selected_threats w)"

subsection \<open>The update of the defense system\<close>

text \<open>\<^verbatim>\<open>interceptor.update(dt)\<close> on the object at \<open>j\<close> of the interceptor store.\<close>

definition update_interceptor :: "real \<Rightarrow> nat \<Rightarrow> world \<Rightarrow> world" where
  "update_interceptor dt j w =
     (case Interceptor_update dt (interceptor_store w ! j) (threat_store w) of
        (i', ts') \<Rightarrow> w\<lparr>interceptor_store := (interceptor_store w)[j := i'], threat_store := ts'\<rparr>)"

fun advance_interceptors :: "real \<Rightarrow> nat list \<Rightarrow> world \<Rightarrow> world" where
  "advance_interceptors dt [] w = w"
| "advance_interceptors dt (j # js) w = advance_interceptors dt js (update_interceptor dt j w)"

text \<open>The body of the collision test, when the distance is below 200.\<close>

definition intercept :: "nat \<Rightarrow> nat \<Rightarrow> world \<Rightarrow> world" where
  "intercept r j w =
     (let threat = threat_store w ! r;
          interceptor = interceptor_store w ! j;
          msg = t_name threat @ '' intercepted by '' @ i_name interceptor
      in log_event msg ''intercept''
           (w\<lparr>threat_store := (threat_store w)[r := threat\<lparr>t_destroyed := True\<rparr>],
              interceptor_store := (interceptor_store w)[j := interceptor\<lparr>i_destroyed := True\<rparr>],
              defense := (defense w)\<lparr>total_intercepted := total_intercepted (defense w) + 1\<rparr>\<rparr>))"

text \<open>The inner loop over \<^verbatim>\<open>list(self.interceptors)\<close>, for the threat \<open>r\<close>.\<close>

fun scan_interceptors :: "nat \<Rightarrow> nat list \<Rightarrow> world \<Rightarrow> world" where
  "scan_interceptors r [] w = w"
| "scan_interceptors r (j # js) w =
     (if i_destroyed (interceptor_store w ! j) then scan_interceptors r js w
      else let dist = magnitude (vsub (t_position (threat_store w ! r))
                                      (i_position (interceptor_store w ! j)))
           in if dist < 200 then scan_interceptors r js (intercept r j w)
              else scan_interceptors r js w)"

fun scan_threats :: "nat list \<Rightarrow> world \<Rightarrow> world" where
  "scan_threats [] w = w"
| "scan_threats (r # rs) w =
     (if t_destroyed (threat_store w ! r) \<or> hit_ground (threat_store w ! r)
      then scan_threats rs w
      else scan_threats rs (scan_interceptors r (interceptors (defense w)) w))"

definition remove_destroyed :: "world \<Rightarrow> world" where
  "remove_destroyed w =
     w\<lparr>defense := (defense w)
         \<lparr>interceptors :=
            filter (\<lambda>i. \<not> i_destroyed (interceptor_store w ! i)) (interceptors (defense w))\<rparr>\<rparr>"

definition DefenseSystem_update :: "real \<Rightarrow> nat list \<Rightarrow> world \<Rightarrow> world" where
  "DefenseSystem_update dt threats w =
     remove_destroyed
       (scan_threats threats (advance_interceptors dt (interceptors (defense w)) w))"

fun record_misses :: "nat list \<Rightarrow> world \<Rightarrow> world" where
  "record_misses [] w = w"
| "record_misses (r # rs) w =
     (let threat = threat_store w ! r
      in if \<not> t_destroyed threat \<and> \<not> hit_ground threat \<and> z (t_position threat) \<le> 0
         then record_misses rs
                (log_event (t_name threat @ '' hit ground!'') ''hit''
                   (w\<lparr>threat_store :=
                        (threat_store w)[r := threat\<lparr>hit_ground := True, targeted := False\<rparr>],
                      defense := (defense w)\<lparr>total_missed := total_missed (defense w) + 1\<rparr>\<rparr>))
         else record_misses rs w)"

section \<open>The application\<close>

text \<open>
  Of \<^verbatim>\<open>FinalAirDefenseApp\<close> the model keeps what acts on the simulation: the list
  \<^verbatim>\<open>self.threats\<close> (references into the threat store), the selection of the list box
  (\<^verbatim>\<open>curselection()\<close>, a tuple of indices) and the dialogs, as the outcome of a request.
\<close>

datatype manual_outcome = NoSelection | NotListed | Invalid | CannotIntercept | Launched

definition manual_launch :: "nat \<Rightarrow> real \<Rightarrow> world \<Rightarrow> world" where
  "manual_launch r t_est w =
     (let interceptor = launch_interceptor (defense w) (threat_store w) r t_est;
          msg = ''Manual interceptor '' @ i_name interceptor @ '' launched for ''
                @ t_name (threat_store w ! r);
          w1 = register_interceptor r interceptor w
      in w1\<lparr>defense := (defense w1)
               \<lparr>destruction_messages := destruction_messages (defense w1) @ [msg]\<rparr>,
            alerts := alerts w1 @ [(msg, ''launch'')]\<rparr>)"

definition manual_intercept :: "nat list \<Rightarrow> nat list \<Rightarrow> world \<Rightarrow> manual_outcome \<times> world" where
  "manual_intercept sel threats w =
     (case sel of
        [] \<Rightarrow> (NoSelection, w)
      | idx # _ \<Rightarrow>
          if idx < length threats then
            let r = threats ! idx; threat = threat_store w ! r
            in if t_destroyed threat \<or> hit_ground threat then (Invalid, w)
               else (case estimate_intercept_time (defense w) threat of
                       None \<Rightarrow> (CannotIntercept, w)
                     | Some t_est \<Rightarrow>
                         if t_est \<le> 0 then (CannotIntercept, w)
                         else (Launched, manual_launch r t_est w))
          else (NotListed, w))"

text \<open>
  The operations that act on the simulation state, as the application and its loop call
  them: \<^verbatim>\<open>threat.update(dt)\<close> on one threat (with the numbers a jet draws),
  \<^verbatim>\<open>record_misses\<close>, the three settings \<^verbatim>\<open>simulation_loop\<close> copies into the defense
  system, \<^verbatim>\<open>detect_and_launch\<close>, \<^verbatim>\<open>update\<close>, and a manual intercept request.
\<close>

datatype operation =
    ThreatUpdate nat real "real \<times> real \<times> real"
  | RecordMisses "nat list"
  | Configure real real int
  | DetectAndLaunch "nat list"
  | Update real "nat list"
  | ManualIntercept "nat list" "nat list"

definition configure :: "real \<Rightarrow> real \<Rightarrow> int \<Rightarrow> world \<Rightarrow> world" where
  "configure rr sp mx w =
     w\<lparr>defense := (defense w)\<lparr>radar_range := rr, interceptor_speed := sp, max_interceptors := mx\<rparr>\<rparr>"

fun exec :: "operation \<Rightarrow> world \<Rightarrow> py_error + world" where
  "exec (ThreatUpdate r dt draw) w =
     Inr (w\<lparr>threat_store := (threat_store w)[r := update_threat dt draw (threat_store w ! r)]\<rparr>)"
| "exec (RecordMisses threats) w = Inr (record_misses threats w)"
| "exec (Configure rr sp mx) w = Inr (configure rr sp mx w)"
| "exec (DetectAndLaunch threats) w = detect_and_launch threats w"
| "exec (Update dt threats) w = Inr (DefenseSystem_update dt threats w)"
| "exec (ManualIntercept sel threats) w = Inr (snd (manual_intercept sel threats w))"

fun run :: "operation list \<Rightarrow> world \<Rightarrow> py_error + world" where
  "run [] w = Inr w"
| "run (c # cs) w = (case exec c w of Inl e \<Rightarrow> Inl e | Inr w' \<Rightarrow> run cs w')"

text \<open>
  One round of \<^verbatim>\<open>simulation_loop\<close>: every threat is updated (\<open>draws r\<close> are the numbers
  the jet \<open>r\<close> draws), with \<^verbatim>\<open>record_misses\<close> called when the threat just updated is live
  at or below the ground; then the settings are copied from the controls, and
  \<^verbatim>\<open>detect_and_launch\<close> and \<^verbatim>\<open>update\<close> run on \<^verbatim>\<open>self.threats\<close>.
\<close>

fun update_threats ::
  "real \<Rightarrow> (nat \<Rightarrow> real \<times> real \<times> real) \<Rightarrow> nat list \<Rightarrow> nat list \<Rightarrow> world \<Rightarrow> world" where
  "update_threats dt draws threats [] w = w"
| "update_threats dt draws threats (r # rs) w =
     (let w1 = w\<lparr>threat_store :=
                  (threat_store w)[r := update_threat dt (draws r) (threat_store w ! r)]\<rparr>;
          threat = threat_store w1 ! r
      in update_threats dt draws threats rs
           (if \<not> t_destroyed threat \<and> \<not> hit_ground threat \<and> z (t_position threat) \<le> 0
            then record_misses threats w1 else w1))"

definition simulation_step ::
  "real \<Rightarrow> (nat \<Rightarrow> real \<times> real \<times> real) \<Rightarrow> real \<Rightarrow> real \<Rightarrow> int \<Rightarrow> nat list \<Rightarrow> world
     \<Rightarrow> py_error + world" where
  "simulation_step dt draws rr sp mx threats w =
     (let w1 = update_threats dt draws threats threats w;
          w2 = configure rr sp mx w1
      in case detect_and_launch threats w2 of
           Inl e \<Rightarrow> Inl e
         | Inr w3 \<Rightarrow> Inr (DefenseSystem_update dt threats w3))"

text \<open>The state \<^verbatim>\<open>start_simulation\<close> builds, before its first \<^verbatim>\<open>detect_and_launch\<close>.\<close>

definition initial_world :: "DefenseSystem \<Rightarrow> Threat list \<Rightarrow> world" where
  "initial_world d ts = \<lparr>threat_store = ts, interceptor_store = [], defense = d, alerts = []\<rparr>"

section \<open>Predicates of the specification\<close>

text \<open>
  \<open>quadratic_root d threat t\<close>: the time \<open>t\<close> solves \<open>a\<cdot>t\<^sup>2 + b\<cdot>t + c = 0\<close> for the
  coefficients of \<^verbatim>\<open>_estimate_intercept_time\<close>.
\<close>

definition quadratic_root :: "DefenseSystem \<Rightarrow> Threat \<Rightarrow> real \<Rightarrow> bool" where
  "quadratic_root d threat t =
     (coeff_a d threat * t\<^sup>2 + coeff_b d threat * t + coeff_c d threat = 0)"

text \<open>
  The state in the middle of \<^verbatim>\<open>update\<close>, when every interceptor has been advanced and
  no collision has been tested yet.
\<close>

definition advanced :: "real \<Rightarrow> world \<Rightarrow> world" where
  "advanced dt w = advance_interceptors dt (interceptors (defense w)) w"

text \<open>
  \<open>live t\<close>: the threat is neither destroyed nor on the ground.
  \<open>in_kill_radius w r j\<close>: in the state \<open>w\<close> the threat \<open>r\<close> and the interceptor \<open>j\<close> are
  less than 200 apart. \<open>collides w r j\<close>: moreover the threat is live and the interceptor
  is not destroyed.
\<close>

definition live :: "Threat \<Rightarrow> bool" where
  "live t = (\<not> t_destroyed t \<and> \<not> hit_ground t)"



text \<open>What a scan leaves as it is.\<close>

definition same_places :: "world \<Rightarrow> world \<Rightarrow> bool" where
  "same_places w w' =
     (length (threat_store w') = length (threat_store w)
      \<and> length (interceptor_store w') = length (interceptor_store w)
      \<and> interceptors (defense w') = interceptors (defense w)
      \<and> (\<forall>r. t_position (threat_store w' ! r) = t_position (threat_store w ! r)
             \<and> hit_ground (threat_store w' ! r) = hit_ground (threat_store w ! r)
             \<and> targeted (threat_store w' ! r) = targeted (threat_store w ! r))
      \<and> (\<forall>j. i_position (interceptor_store w' ! j) = i_position (interceptor_store w ! j)
             \<and> target (interceptor_store w' ! j) = target (interceptor_store w ! j)))"

text \<open>
  \<open>monotone w w'\<close>: from the state \<open>w\<close> to the state \<open>w'\<close> no threat and no interceptor
  went from destroyed back to not destroyed, no threat from \<^verbatim>\<open>hit_ground\<close> back, no object
  left its store, and none of the three counters decreased.
\<close>

definition monotone :: "world \<Rightarrow> world \<Rightarrow> bool" where
  "monotone w w' =
     (length (threat_store w') = length (threat_store w)
      \<and> (\<forall>r < length (threat_store w).
            (t_destroyed (threat_store w ! r) \<longrightarrow> t_destroyed (threat_store w' ! r))
            \<and> (hit_ground (threat_store w ! r) \<longrightarrow> hit_ground (threat_store w' ! r)))
      \<and> length (interceptor_store w) \<le> length (interceptor_store w')
      \<and> (\<forall>j < length (interceptor_store w).
            i_destroyed (interceptor_store w ! j) \<longrightarrow> i_destroyed (interceptor_store w' ! j))
      \<and> total_launches (defense w) \<le> total_launches (defense w')
      \<and> total_intercepted (defense w) \<le> total_intercepted (defense w')
      \<and> total_missed (defense w) \<le> total_missed (defense w'))"

text \<open>
  \<open>well_engaged w\<close>: every interceptor of the controller's collection is in the store and
  not destroyed, its target is a threat of the store, a live threat is the target of at
  most one of them, and a live threat that is the target of one of them is targeted.
\<close>

definition well_engaged :: "world \<Rightarrow> bool" where
  "well_engaged w =
     ((\<forall>j \<in> set (interceptors (defense w)).
         j < length (interceptor_store w) \<and> \<not> i_destroyed (interceptor_store w ! j))
      \<and> (\<forall>j \<in> set (interceptors (defense w)). \<forall>r.
            target (interceptor_store w ! j) = Some r \<longrightarrow> r < length (threat_store w))
      \<and> (\<forall>j \<in> set (interceptors (defense w)). \<forall>j' \<in> set (interceptors (defense w)). \<forall>r.
            target (interceptor_store w ! j) = Some r \<and> target (interceptor_store w ! j') = Some r
            \<and> live (threat_store w ! r) \<longrightarrow> j = j')
      \<and> (\<forall>j \<in> set (interceptors (defense w)). \<forall>r.
            target (interceptor_store w ! j) = Some r \<and> live (threat_store w ! r)
            \<longrightarrow> targeted (threat_store w ! r)))"

text \<open>
  The operations of the simulation loop, on a store of \<open>n\<close> threats: all but the manual
  intercept, with \<^verbatim>\<open>detect_and_launch\<close> called on a list of threats of the store in which
  no threat occurs twice (the loop calls it on \<^verbatim>\<open>self.threats\<close>).
\<close>

fun automatic :: "nat \<Rightarrow> operation \<Rightarrow> bool" where
  "automatic n (DetectAndLaunch threats) = (distinct threats \<and> list_all (\<lambda>r. r < n) threats)"
| "automatic n (ManualIntercept sel threats) = False"
| "automatic n c = True"

section \<open>Fixtures\<close>

text \<open>The defense system the application starts with, at the origin, with its defaults.\<close>

definition base_defense :: DefenseSystem where
  "base_defense = new_DefenseSystem (vec 0 0 0) 30000 10000 30 True"

text \<open>A missile that hangs still at height \<open>h\<close> above the defense system.\<close>

definition still_missile :: "real \<Rightarrow> string \<Rightarrow> Threat" where
  "still_missile h nm = new_Missile (vec 0 0 h) (vec 0 0 0) nm"

text \<open>
  Two missiles 50 apart and one interceptor that reaches the first of them on the next
  step.
\<close>

definition crowded_world :: world where
  "crowded_world =
     \<lparr>threat_store = [still_missile 100 ''M1'', still_missile 150 ''M2''],
      interceptor_store = [new_Interceptor (vec 0 0 0) (vec 0 0 10000) ''I1'' (Some 0) 3],
      defense = base_defense\<lparr>interceptors := [0]\<rparr>,
      alerts = []\<rparr>"

text \<open>
  Two still missiles, the one listed first a little farther away, and a defense system
  that may hold one interceptor.
\<close>

definition stacked_world :: world where
  "stacked_world =
     initial_world (base_defense\<lparr>max_interceptors := 1\<rparr>)
       [still_missile 10100 ''M2'', still_missile 10000 ''M1'']"

section \<open>Properties of the vector operations\<close>

lemma vec_sel [simp]: "x (vec a b c) = a" "y (vec a b c) = b" "z (vec a b c) = c"
  by (simp_all add: vec_def)

lemma vec_eta [simp]: "vec (x u) (y u) (z u) = (u :: Vector3D)"
  by (simp add: vec_def)

text \<open>
  Claim C4, as the code has it: \<^verbatim>\<open>__truediv__\<close> by the scalar 0 returns a copy of the
  vector itself, with its components unchanged (so the zero vector only when the
  vector was zero already); \<^verbatim>\<open>normalize\<close> of the zero vector returns the zero vector.
\<close>

theorem truediv_zero_keeps_vector:
  "truediv u 0 = u \<and> normalize_v (vec 0 0 0) = vec 0 0 0"
  by (simp add: truediv_def normalize_v_def magnitude_def)

text \<open>Dividing \<open>(1, 2, 3)\<close> by 0 gives \<open>(1, 2, 3)\<close>, which is not the zero vector.\<close>

theorem truediv_zero_counterexample:
  "truediv (vec 1 2 3) 0 = vec 1 2 3 \<and> truediv (vec 1 2 3) 0 \<noteq> vec 0 0 0"
  by (simp add: truediv_def vec_def)






section \<open>The speed of a jet\<close>





section \<open>Expiry of an interceptor\<close>

text \<open>
  Claim C10: on the call of \<^verbatim>\<open>Interceptor.update\<close> in which \<^verbatim>\<open>elapsed\<close> comes to exceed
  \<^verbatim>\<open>lifetime\<close>, the interceptor is marked destroyed, \<^verbatim>\<open>elapsed\<close> has grown by \<open>dt\<close>, and
  its position and trail are as before: it does not move on that call.
\<close>

theorem Interceptor_update_expiry:
  assumes "\<not> i_destroyed i" and "elapsed i + dt > lifetime i"
  shows "i_destroyed (fst (Interceptor_update dt i ts))
       \<and> i_position (fst (Interceptor_update dt i ts)) = i_position i
       \<and> i_trail (fst (Interceptor_update dt i ts)) = i_trail i
       \<and> elapsed (fst (Interceptor_update dt i ts)) = elapsed i + dt"
  using assms by (simp add: Interceptor_update_def Let_def)

theorem Interceptor_update_expiry_witness:
  "\<not> i_destroyed ((new_Interceptor (vec 0 0 0) (vec 1 0 0) ''I1'' None 2)\<lparr>elapsed := 2\<rparr>)
   \<and> elapsed ((new_Interceptor (vec 0 0 0) (vec 1 0 0) ''I1'' None 2)\<lparr>elapsed := 2\<rparr>) + 1 / 100
       > lifetime ((new_Interceptor (vec 0 0 0) (vec 1 0 0) ''I1'' None 2)\<lparr>elapsed := 2\<rparr>)
   \<and> i_destroyed (fst (Interceptor_update (1 / 100)
        ((new_Interceptor (vec 0 0 0) (vec 1 0 0) ''I1'' None 2)\<lparr>elapsed := 2\<rparr>) []))
   \<and> i_position (fst (Interceptor_update (1 / 100)
        ((new_Interceptor (vec 0 0 0) (vec 1 0 0) ''I1'' None 2)\<lparr>elapsed := 2\<rparr>) [])) = vec 0 0 0
   \<and> i_trail (fst (Interceptor_update (1 / 100)
        ((new_Interceptor (vec 0 0 0) (vec 1 0 0) ''I1'' None 2)\<lparr>elapsed := 2\<rparr>) [])) = []
   \<and> elapsed (fst (Interceptor_update (1 / 100)
        ((new_Interceptor (vec 0 0 0) (vec 1 0 0) ''I1'' None 2)\<lparr>elapsed := 2\<rparr>) [])) = 201 / 100"
proof -
  let ?i = "(new_Interceptor (vec 0 0 0) (vec 1 0 0) ''I1'' None 2)\<lparr>elapsed := 2\<rparr>"
  have h1: "\<not> i_destroyed ?i" and h2: "elapsed ?i + 1 / 100 > lifetime ?i"
    by (simp_all add: new_Interceptor_def)
  from Interceptor_update_expiry [OF h1 h2, of "[]"] h1 h2 show ?thesis
    by (simp add: new_Interceptor_def)
qed

section \<open>The intercept time\<close>

lemma quad_roots:
  fixes a b c t :: real
  assumes "a \<noteq> 0" and "0 \<le> b * b - 4 * a * c"
  shows "(a * t\<^sup>2 + b * t + c = 0) =
         (t = (- b + sqrt (b * b - 4 * a * c)) / (2 * a)
          \<or> t = (- b - sqrt (b * b - 4 * a * c)) / (2 * a))"
proof -
  let ?D = "b * b - 4 * a * c"
  have e: "4 * a * (a * t\<^sup>2 + b * t + c) = (2 * a * t + b)\<^sup>2 - ?D"
    by (simp add: power2_eq_square algebra_simps)
  have "(a * t\<^sup>2 + b * t + c = 0) = (4 * a * (a * t\<^sup>2 + b * t + c) = 0)"
    using assms(1) by simp
  also have "\<dots> = ((2 * a * t + b)\<^sup>2 = ?D)"
    unfolding e by auto
  also have "\<dots> = ((2 * a * t + b)\<^sup>2 = (sqrt ?D)\<^sup>2)"
    using assms(2) by simp
  also have "\<dots> = (2 * a * t + b = sqrt ?D \<or> 2 * a * t + b = - sqrt ?D)"
    by (simp add: power2_eq_iff)
  also have "\<dots> = (t = (- b + sqrt ?D) / (2 * a) \<or> t = (- b - sqrt ?D) / (2 * a))"
    using assms(1) by (auto simp: field_simps)
  finally show ?thesis .
qed

lemma estimate_unfold:
  "estimate_intercept_time d threat =
     (let a = coeff_a d threat; b = coeff_b d threat; c = coeff_c d threat;
          disc = b * b - 4 * a * c
      in if disc < 0 then None
         else if \<bar>a\<bar> < 1 / 1000000 then
           (if \<bar>b\<bar> < 1 / 1000000 then None
            else let t = - c / b in if t > 0 then Some t else None)
         else let sqrt_disc = sqrt disc;
                  t1 = (- b + sqrt_disc) / (2 * a);
                  t2 = (- b - sqrt_disc) / (2 * a);
                  times = filter (\<lambda>t. t > 0) [t1, t2]
              in if times \<noteq> [] then Some (min_list times) else None)"
  by (simp add: estimate_intercept_time_def coeff_a_def coeff_b_def coeff_c_def Let_def)

text \<open>
  Claim C1: with \<open>a = V\<cdot>V - S\<^sup>2\<close>, \<open>b = 2\<cdot>R\<cdot>V\<close>, \<open>c = R\<cdot>R\<close>, the function
  \<^verbatim>\<open>_estimate_intercept_time\<close> returns \<^verbatim>\<open>None\<close> when \<open>b\<^sup>2 - 4ac < 0\<close>; when \<open>|a| < 10\<^sup>-\<^sup>6\<close> it
  returns \<open>-c/b\<close> if \<open>|b| \<ge> 10\<^sup>-\<^sup>6\<close> and \<open>-c/b > 0\<close>, else \<^verbatim>\<open>None\<close>; otherwise it returns the
  least strictly positive root of \<open>a\<cdot>t\<^sup>2 + b\<cdot>t + c = 0\<close>, and \<^verbatim>\<open>None\<close> when no root is
  positive.
\<close>

theorem estimate_intercept_time_cases:
  fixes d :: DefenseSystem and threat :: Threat
  defines "a \<equiv> coeff_a d threat" and "b \<equiv> coeff_b d threat" and "c \<equiv> coeff_c d threat"
  shows "(b * b - 4 * a * c < 0 \<longrightarrow> estimate_intercept_time d threat = None)
       \<and> (0 \<le> b * b - 4 * a * c \<and> \<bar>a\<bar> < 1 / 1000000 \<longrightarrow>
            estimate_intercept_time d threat =
              (if 1 / 1000000 \<le> \<bar>b\<bar> \<and> 0 < - c / b then Some (- c / b) else None))
       \<and> (0 \<le> b * b - 4 * a * c \<and> 1 / 1000000 \<le> \<bar>a\<bar> \<longrightarrow>
            (case estimate_intercept_time d threat of
               Some t \<Rightarrow> 0 < t \<and> quadratic_root d threat t
                  \<and> (\<forall>t'. 0 < t' \<and> quadratic_root d threat t' \<longrightarrow> t \<le> t')
             | None \<Rightarrow> \<not> (\<exists>t'. 0 < t' \<and> quadratic_root d threat t')))"
proof (intro conjI impI)
  assume "b * b - 4 * a * c < 0"
  then show "estimate_intercept_time d threat = None"
    by (simp add: estimate_unfold a_def b_def c_def Let_def)
next
  assume "0 \<le> b * b - 4 * a * c \<and> \<bar>a\<bar> < 1 / 1000000"
  then show "estimate_intercept_time d threat =
              (if 1 / 1000000 \<le> \<bar>b\<bar> \<and> 0 < - c / b then Some (- c / b) else None)"
    by (auto simp add: estimate_unfold a_def b_def c_def Let_def)
next
  assume h: "0 \<le> b * b - 4 * a * c \<and> 1 / 1000000 \<le> \<bar>a\<bar>"
  then have a0: "a \<noteq> 0" by auto
  let ?t1 = "(- b + sqrt (b * b - 4 * a * c)) / (2 * a)"
  let ?t2 = "(- b - sqrt (b * b - 4 * a * c)) / (2 * a)"
  have roots: "\<And>t. quadratic_root d threat t = (t = ?t1 \<or> t = ?t2)"
    unfolding quadratic_root_def using quad_roots [OF a0, of b c] h
    by (simp add: a_def b_def c_def)
  have est: "estimate_intercept_time d threat =
      (if filter (\<lambda>t. t > 0) [?t1, ?t2] \<noteq> []
       then Some (min_list (filter (\<lambda>t. t > 0) [?t1, ?t2])) else None)"
    using h by (simp add: estimate_unfold a_def b_def c_def Let_def del: filter.simps min_list.simps)
  show "case estimate_intercept_time d threat of
               Some t \<Rightarrow> 0 < t \<and> quadratic_root d threat t
                  \<and> (\<forall>t'. 0 < t' \<and> quadratic_root d threat t' \<longrightarrow> t \<le> t')
             | None \<Rightarrow> \<not> (\<exists>t'. 0 < t' \<and> quadratic_root d threat t')"
    unfolding est roots by (auto simp: min_def)
qed

lemma sqrt_4e16: "sqrt 40000000000000000 = 200000000"
  by (rule real_sqrt_unique) simp_all

theorem estimate_intercept_time_cases_witness:
  "(coeff_b base_defense (new_Missile (vec 0 1 0) (vec 20000 0 0) ''M1'') * coeff_b base_defense (new_Missile (vec 0 1 0) (vec 20000 0 0) ''M1'')
      - 4 * coeff_a base_defense (new_Missile (vec 0 1 0) (vec 20000 0 0) ''M1'') * coeff_c base_defense (new_Missile (vec 0 1 0) (vec 20000 0 0) ''M1'') < 0
    \<and> estimate_intercept_time base_defense (new_Missile (vec 0 1 0) (vec 20000 0 0) ''M1'') = None)
 \<and> (0 \<le> coeff_b base_defense (new_Missile (vec (- 1) 0 0) (vec 10000 0 0) ''M2'') * coeff_b base_defense (new_Missile (vec (- 1) 0 0) (vec 10000 0 0) ''M2'')
      - 4 * coeff_a base_defense (new_Missile (vec (- 1) 0 0) (vec 10000 0 0) ''M2'') * coeff_c base_defense (new_Missile (vec (- 1) 0 0) (vec 10000 0 0) ''M2'')
    \<and> \<bar>coeff_a base_defense (new_Missile (vec (- 1) 0 0) (vec 10000 0 0) ''M2'')\<bar> < 1 / 1000000
    \<and> estimate_intercept_time base_defense (new_Missile (vec (- 1) 0 0) (vec 10000 0 0) ''M2'') = Some (1 / 20000))
 \<and> (0 \<le> coeff_b base_defense (new_Missile (vec 0 0 10000) (vec 0 0 (- 500)) ''M3'') * coeff_b base_defense (new_Missile (vec 0 0 10000) (vec 0 0 (- 500)) ''M3'')
      - 4 * coeff_a base_defense (new_Missile (vec 0 0 10000) (vec 0 0 (- 500)) ''M3'') * coeff_c base_defense (new_Missile (vec 0 0 10000) (vec 0 0 (- 500)) ''M3'')
    \<and> 1 / 1000000 \<le> \<bar>coeff_a base_defense (new_Missile (vec 0 0 10000) (vec 0 0 (- 500)) ''M3'')\<bar>
    \<and> estimate_intercept_time base_defense (new_Missile (vec 0 0 10000) (vec 0 0 (- 500)) ''M3'') = Some (20 / 21)
    \<and> quadratic_root base_defense (new_Missile (vec 0 0 10000) (vec 0 0 (- 500)) ''M3'') (20 / 21))"
proof -
  let ?m1 = "new_Missile (vec 0 1 0) (vec 20000 0 0) ''M1''"
  let ?m2 = "new_Missile (vec (- 1) 0 0) (vec 10000 0 0) ''M2''"
  let ?m3 = "new_Missile (vec 0 0 10000) (vec 0 0 (- 500)) ''M3''"
  have c1: "coeff_a base_defense ?m1 = 300000000" "coeff_b base_defense ?m1 = 0"
    "coeff_c base_defense ?m1 = 1"
    by (simp_all add: coeff_a_def coeff_b_def coeff_c_def base_defense_def new_DefenseSystem_def
        new_Missile_def new_Threat_def dot_def vsub_def)
  have c2: "coeff_a base_defense ?m2 = 0" "coeff_b base_defense ?m2 = - 20000"
    "coeff_c base_defense ?m2 = 1"
    by (simp_all add: coeff_a_def coeff_b_def coeff_c_def base_defense_def new_DefenseSystem_def
        new_Missile_def new_Threat_def dot_def vsub_def)
  have c3: "coeff_a base_defense ?m3 = - 99750000" "coeff_b base_defense ?m3 = - 10000000"
    "coeff_c base_defense ?m3 = 100000000"
    by (simp_all add: coeff_a_def coeff_b_def coeff_c_def base_defense_def new_DefenseSystem_def
        new_Missile_def new_Threat_def dot_def vsub_def)
  have e3: "estimate_intercept_time base_defense ?m3 = Some (20 / 21)"
    by (simp add: estimate_unfold c3 Let_def sqrt_4e16)
  have p1: "coeff_b base_defense ?m1 * coeff_b base_defense ?m1
      - 4 * coeff_a base_defense ?m1 * coeff_c base_defense ?m1 < 0
    \<and> estimate_intercept_time base_defense ?m1 = None"
    using estimate_intercept_time_cases [of base_defense ?m1] by (simp add: c1)
  have p2: "0 \<le> coeff_b base_defense ?m2 * coeff_b base_defense ?m2
      - 4 * coeff_a base_defense ?m2 * coeff_c base_defense ?m2
    \<and> \<bar>coeff_a base_defense ?m2\<bar> < 1 / 1000000
    \<and> estimate_intercept_time base_defense ?m2 = Some (1 / 20000)"
    using estimate_intercept_time_cases [of base_defense ?m2] by (simp add: c2)
  have p3: "0 \<le> coeff_b base_defense ?m3 * coeff_b base_defense ?m3
      - 4 * coeff_a base_defense ?m3 * coeff_c base_defense ?m3
    \<and> 1 / 1000000 \<le> \<bar>coeff_a base_defense ?m3\<bar>
    \<and> estimate_intercept_time base_defense ?m3 = Some (20 / 21)
    \<and> quadratic_root base_defense ?m3 (20 / 21)"
    using estimate_intercept_time_cases [of base_defense ?m3] unfolding e3 by (simp add: c3)
  from p1 p2 p3 show ?thesis by blast
qed

section \<open>The assignment of interceptors is a greedy prefix\<close>

declare backtrack.simps [simp del]


lemma dict_set_fresh: "k \<notin> fst ` set a \<Longrightarrow> dict_set k v a = a @ [(k, v)]"
  by (induction a) auto

lemma dict_del_fresh: "k \<notin> fst ` set a \<Longrightarrow> dict_del k (a @ [(k, v)]) = Inr a"
  by (induction a) auto

lemma targets_snoc: "targets (a @ [(k, v)]) = targets a + (if v = Target then 1 else 0)"
  by (simp add: targets_def)

lemma is_consistent_targets: "is_consistent k a = (targets a \<le> k)"
  by (simp add: is_consistent_def targets_def)

lemma nth_notin_take: "distinct xs \<Longrightarrow> i < length xs \<Longrightarrow> xs ! i \<notin> set (take i xs)"
  by (metis distinct_take id_take_nth_drop not_distinct_conv_prefix)

lemma backtrack_fill:
  assumes "distinct threats"
  shows "i \<le> length threats \<Longrightarrow> map fst a = take i threats \<Longrightarrow> targets a \<le> k \<Longrightarrow>
         backtrack threats k i a =
           Inr (Some (a @ fill k (targets a) (drop i threats)),
                a @ fill k (targets a) (drop i threats))"
proof (induction "length threats - i" arbitrary: i a)
  case 0
  then have "i = length threats" by simp
  then show ?case by (simp add: backtrack.simps)
next
  case (Suc n)
  then have lt: "i < length threats" by simp
  let ?v = "threats ! i"
  have "fst ` set a = set (take i threats)" using Suc.prems(2) by (metis set_map)
  then have fresh: "?v \<notin> fst ` set a"
    using nth_notin_take [OF assms lt] by simp
  have dr: "drop i threats = ?v # drop (Suc i) threats"
    using lt by (simp add: Cons_nth_drop_Suc)
  have n: "n = length threats - Suc i" using Suc.hyps(2) by simp
  have keys: "\<And>v. map fst (a @ [(?v, v)]) = take (Suc i) threats"
    using Suc.prems(2) lt by (simp add: take_Suc_conv_app_nth)
  show ?case
  proof (cases "targets a + 1 \<le> k")
    case True
    have "backtrack threats k (Suc i) (a @ [(?v, Target)]) =
        Inr (Some ((a @ [(?v, Target)]) @ fill k (targets (a @ [(?v, Target)])) (drop (Suc i) threats)),
             (a @ [(?v, Target)]) @ fill k (targets (a @ [(?v, Target)])) (drop (Suc i) threats))"
      using Suc.hyps(1) [OF n _ keys] lt True by (simp add: targets_snoc)
    then show ?thesis
      using lt True fresh
      by (subst backtrack.simps)
         (simp add: dict_set_fresh is_consistent_targets targets_snoc dr after_attempt_def
            truthy_def Let_def)
  next
    case False
    have "backtrack threats k (Suc i) (a @ [(?v, NotTarget)]) =
        Inr (Some ((a @ [(?v, NotTarget)]) @ fill k (targets (a @ [(?v, NotTarget)])) (drop (Suc i) threats)),
             (a @ [(?v, NotTarget)]) @ fill k (targets (a @ [(?v, NotTarget)])) (drop (Suc i) threats))"
      using Suc.hyps(1) [OF n _ keys] lt Suc.prems(3) by (simp add: targets_snoc)
    then show ?thesis
      using lt False fresh Suc.prems(3)
      by (subst backtrack.simps)
         (simp add: dict_set_fresh dict_del_fresh is_consistent_targets targets_snoc dr
            after_attempt_def truthy_def Let_def)
  qed
qed

lemma dict_get_fill_notin: "t \<notin> set ts \<Longrightarrow> dict_get (fill k c ts) t = None"
  by (induction ts arbitrary: c) auto

lemma fill_full: "k \<le> c \<Longrightarrow> t \<in> set ts \<Longrightarrow> dict_get (fill k c ts) t = Some NotTarget"
  by (induction ts arbitrary: c) auto

lemma dict_get_append: "dict_get (a @ b) t = (case dict_get a t of None \<Rightarrow> dict_get b t | Some v \<Rightarrow> Some v)"
  by (induction a) auto

lemma filter_fill:
  "distinct ts \<Longrightarrow> filter (\<lambda>t. dict_get (fill k c ts) t = Some Target) ts = take (nat (k - c)) ts"
proof (induction ts arbitrary: c)
  case Nil
  then show ?case by simp
next
  case (Cons t ts)
  have notin: "t \<notin> set ts" and d: "distinct ts" using Cons.prems by auto
  show ?case
  proof (cases "c + 1 \<le> k")
    case True
    have "filter (\<lambda>u. dict_get (fill k c (t # ts)) u = Some Target) ts
          = filter (\<lambda>u. dict_get (fill k (c + 1) ts) u = Some Target) ts"
      using notin True by (intro filter_cong) auto
    also have "\<dots> = take (nat (k - (c + 1))) ts" using Cons.IH [OF d] .
    finally have "filter (\<lambda>u. dict_get (fill k c (t # ts)) u = Some Target) (t # ts)
        = t # take (nat (k - (c + 1))) ts" using True by simp
    moreover have "nat (k - c) = Suc (nat (k - (c + 1)))" using True by simp
    ultimately show ?thesis by simp
  next
    case False
    have "filter (\<lambda>u. dict_get (fill k c (t # ts)) u = Some Target) ts
          = filter (\<lambda>u. dict_get (fill k c ts) u = Some Target) ts"
      using notin False by (intro filter_cong) auto
    also have "\<dots> = take (nat (k - c)) ts" using Cons.IH [OF d] .
    finally show ?thesis using False by simp
  qed
qed

lemma fill_nonempty: "ts \<noteq> [] \<Longrightarrow> fill k c ts \<noteq> []"
  by (cases ts) auto

lemma csp_negative:
  assumes "k < 0"
  shows "assign_interceptors_csp threats k = Inr []"
proof (cases threats)
  case Nil
  then show ?thesis by (simp add: assign_interceptors_csp_def truthy_def backtrack.simps)
next
  case (Cons t ts)
  then show ?thesis using assms
    by (simp add: assign_interceptors_csp_def truthy_def is_consistent_def after_attempt_def
        Let_def backtrack.simps)
qed

lemma assign_interceptors_csp_distinct:
  assumes "distinct threats"
  shows "assign_interceptors_csp threats k = Inr (greedy_prefix threats k)"
proof (cases "k < 0")
  case True
  then show ?thesis by (simp add: csp_negative greedy_prefix_def)
next
  case False
  then have k: "0 \<le> k" by simp
  have b: "backtrack threats k 0 [] = Inr (Some (fill k 0 threats), fill k 0 threats)"
    using backtrack_fill [OF assms, of 0 "[]" k] k by (simp add: targets_def)
  have "assign_interceptors_csp threats k = Inr (take (nat k) threats)"
  proof (cases "threats = []")
    case True
    then show ?thesis by (simp add: assign_interceptors_csp_def truthy_def backtrack.simps)
  next
    case False
    then show ?thesis
      using filter_fill [OF assms, of k 0]
      by (simp add: assign_interceptors_csp_def b truthy_def fill_nonempty)
  qed
  then show ?thesis by (simp add: greedy_prefix_def min_def)
qed




lemma targets_nonneg: "0 \<le> targets a" by (simp add: targets_def)

lemma dict_set_nonempty: "dict_set k v a \<noteq> []" by (cases a) auto

lemma targets_dict_set_le: "targets (dict_set k v a) \<le> targets a + 1"
  by (induction a) (auto simp: targets_def)

lemma targets_dict_set_NotTarget: "targets (dict_set k NotTarget a) \<le> targets a"
  by (induction a) (auto simp: targets_def)

lemma dict_del_after_set:
  "\<exists>a'. dict_del k (dict_set k v a) = Inr a' \<and> targets a' \<le> targets a"
  by (induction a) (auto simp: targets_def)

lemma backtrack_total:
  "i \<le> length threats \<Longrightarrow> targets a \<le> k \<Longrightarrow>
   \<exists>a'. backtrack threats k i a = Inr (Some a', a') \<and> (a \<noteq> [] \<or> i < length threats \<longrightarrow> a' \<noteq> [])"
proof (induction "length threats - i" arbitrary: i a)
  case 0
  then show ?case by (simp add: backtrack.simps)
next
  case (Suc n)
  then have lt: "i < length threats" by simp
  have n: "n = length threats - Suc i" using Suc.hyps(2) by simp
  let ?v = "threats ! i"
  let ?a1 = "dict_set ?v Target a"
  show ?case
  proof (cases "targets ?a1 \<le> k")
    case True
    from Suc.hyps(1) [OF n _ True] lt obtain a' where
      "backtrack threats k (Suc i) ?a1 = Inr (Some a', a')" "a' \<noteq> []"
      using dict_set_nonempty by fastforce
    then show ?thesis using lt True
      by (subst backtrack.simps)
         (simp add: is_consistent_targets after_attempt_def truthy_def Let_def)
  next
    case False
    obtain a2 where a2: "dict_del ?v ?a1 = Inr a2" "targets a2 \<le> targets a"
      using dict_del_after_set [of ?v Target a] by blast
    let ?a3 = "dict_set ?v NotTarget a2"
    have t3: "targets ?a3 \<le> k"
      using targets_dict_set_NotTarget [of ?v a2] a2(2) Suc.prems(2) by linarith
    from Suc.hyps(1) [OF n _ t3] lt obtain a' where
      "backtrack threats k (Suc i) ?a3 = Inr (Some a', a')" "a' \<noteq> []"
      using dict_set_nonempty by fastforce
    then show ?thesis using lt False a2 t3
      by (subst backtrack.simps)
         (simp add: is_consistent_targets after_attempt_def truthy_def Let_def)
  qed
qed

lemma assign_interceptors_csp_total:
  "\<exists>sel. assign_interceptors_csp threats k = Inr sel \<and> set sel \<subseteq> set threats"
proof (cases "k < 0")
  case True
  then show ?thesis by (simp add: csp_negative)
next
  case False
  then obtain a' where "backtrack threats k 0 [] = Inr (Some a', a')"
    using backtrack_total [of 0 threats "[]" k] by (auto simp: targets_def)
  then show ?thesis by (auto simp: assign_interceptors_csp_def)
qed

section \<open>Frame conditions of the operations\<close>

lemma log_event_stores [simp]:
  "threat_store (log_event msg ty w) = threat_store w"
  "interceptor_store (log_event msg ty w) = interceptor_store w"
  by (simp_all add: log_event_def Let_def)

lemma log_event_defense [simp]:
  "interceptors (defense (log_event msg ty w)) = interceptors (defense w)"
  "total_launches (defense (log_event msg ty w)) = total_launches (defense w)"
  "total_intercepted (defense (log_event msg ty w)) = total_intercepted (defense w)"
  "total_missed (defense (log_event msg ty w)) = total_missed (defense w)"
  "max_interceptors (defense (log_event msg ty w)) = max_interceptors (defense w)"
  "radar_range (defense (log_event msg ty w)) = radar_range (defense w)"
  "interceptor_speed (defense (log_event msg ty w)) = interceptor_speed (defense w)"
  "d_position (defense (log_event msg ty w)) = d_position (defense w)"
  "alert_callback (defense (log_event msg ty w)) = alert_callback (defense w)"
  by (simp_all add: log_event_def Let_def)

lemma nth_update_any: "(xs[i := v]) ! j = (if i = j \<and> i < length xs then v else xs ! j)"
  by (cases "i < length xs") (auto simp: nth_list_update list_update_beyond)

lemma monotone_refl: "monotone w w"
  by (simp add: monotone_def)

lemma monotone_trans: "monotone w1 w2 \<Longrightarrow> monotone w2 w3 \<Longrightarrow> monotone w1 w3"
  unfolding monotone_def by force

lemma monotone_log_event: "monotone w (log_event msg ty w)"
  by (simp add: monotone_def)

lemma monotone_register: "monotone w (register_interceptor r i w)"
  by (auto simp: monotone_def register_interceptor_def nth_update_any nth_append)

lemma monotone_launch_for: "monotone w (launch_for r t_est w)"
  unfolding launch_for_def Let_def
  by (rule monotone_trans [OF monotone_register monotone_log_event])

lemma monotone_launch_selected:
  "launch_selected detectable sel w = Inr w' \<Longrightarrow> monotone w w'"
proof (induction sel arbitrary: w)
  case Nil
  then show ?case by (simp add: monotone_refl)
next
  case (Cons r rs)
  then show ?case
    by (auto split: sum.splits intro: monotone_trans [OF monotone_launch_for])
qed

lemma monotone_detect_and_launch:
  "detect_and_launch threats w = Inr w' \<Longrightarrow> monotone w w'"
  by (auto simp: detect_and_launch_def Let_def monotone_refl split: if_splits sum.splits
      dest: monotone_launch_selected)

lemma monotone_update_interceptor: "monotone w (update_interceptor dt j w)"
  by (auto simp: monotone_def update_interceptor_def Interceptor_update_def release_target_def
      Let_def nth_update_any split: option.splits)

lemma monotone_advance_interceptors: "monotone w (advance_interceptors dt js w)"
proof (induction js arbitrary: w)
  case Nil
  show ?case by (simp add: monotone_refl)
next
  case (Cons j js)
  show ?case
    using monotone_trans [OF monotone_update_interceptor Cons.IH] by simp
qed

lemma monotone_intercept: "monotone w (intercept r j w)"
  unfolding intercept_def Let_def
  by (rule monotone_trans [OF _ monotone_log_event])
     (auto simp: monotone_def nth_update_any)

lemma monotone_scan_interceptors: "monotone w (scan_interceptors r js w)"
proof (induction js arbitrary: w)
  case Nil
  show ?case by (simp add: monotone_refl)
next
  case (Cons j js)
  show ?case
    using monotone_trans [OF monotone_intercept Cons.IH] Cons.IH
    by (simp add: Let_def)
qed

lemma monotone_scan_threats: "monotone w (scan_threats rs w)"
proof (induction rs arbitrary: w)
  case Nil
  show ?case by (simp add: monotone_refl)
next
  case (Cons r rs)
  show ?case
    using monotone_trans [OF monotone_scan_interceptors Cons.IH] Cons.IH
    by simp
qed

lemma monotone_remove_destroyed: "monotone w (remove_destroyed w)"
  by (simp add: monotone_def remove_destroyed_def)

lemma monotone_DefenseSystem_update: "monotone w (DefenseSystem_update dt threats w)"
  unfolding DefenseSystem_update_def
  by (blast intro: monotone_trans monotone_advance_interceptors monotone_scan_threats
      monotone_remove_destroyed)

lemma monotone_record_misses: "monotone w (record_misses rs w)"
proof (induction rs arbitrary: w)
  case Nil
  show ?case by (simp add: monotone_refl)
next
  case (Cons r rs)
  have step: "monotone w (log_event m ty
      (w\<lparr>threat_store := (threat_store w)[r := (threat_store w ! r)\<lparr>hit_ground := True, targeted := False\<rparr>],
         defense := (defense w)\<lparr>total_missed := total_missed (defense w) + 1\<rparr>\<rparr>))" for m ty
    by (rule monotone_trans [OF _ monotone_log_event]) (auto simp: monotone_def nth_update_any)
  show ?case
    using monotone_trans [OF step Cons.IH] Cons.IH
    by (simp add: Let_def)
qed

lemma monotone_manual_launch: "monotone w (manual_launch r t_est w)"
  using monotone_register [of w r "launch_interceptor (defense w) (threat_store w) r t_est"]
  by (simp add: manual_launch_def Let_def monotone_def)

lemma monotone_manual_intercept: "monotone w (snd (manual_intercept sel threats w))"
  by (auto simp: manual_intercept_def Let_def monotone_refl monotone_manual_launch
      split: list.splits option.splits)

lemma monotone_threat_update:
  "monotone w (w\<lparr>threat_store := (threat_store w)[r := update_threat dt draw (threat_store w ! r)]\<rparr>)"
  by (auto simp: monotone_def nth_update_any update_threat_def Threat_update_def
      Missile_update_def Jet_update_def split: kind.splits)

lemma monotone_configure: "monotone w (configure rr sp mx w)"
  by (simp add: monotone_def configure_def)

lemma monotone_exec: "exec c w = Inr w' \<Longrightarrow> monotone w w'"
  by (cases c)
     (auto simp: monotone_threat_update monotone_record_misses monotone_configure
        monotone_DefenseSystem_update monotone_manual_intercept
        dest: monotone_detect_and_launch)

lemma monotone_run: "run cs w = Inr w' \<Longrightarrow> monotone w w'"
proof (induction cs arbitrary: w)
  case Nil
  then show ?case by (simp add: monotone_refl)
next
  case (Cons c cs)
  then show ?case
    by (auto split: sum.splits intro: monotone_trans dest: monotone_exec)
qed

section \<open>No operation raises\<close>

lemma next_t_est_total: "r \<in> fst ` set detectable \<Longrightarrow> \<exists>te. next_t_est detectable r = Inr te"
proof (induction detectable)
  case Nil
  then show ?case by simp
next
  case (Cons p ps)
  then show ?case by (cases p) auto
qed

lemma launch_selected_total:
  "set sel \<subseteq> fst ` set detectable \<Longrightarrow> \<exists>w'. launch_selected detectable sel w = Inr w'"
proof (induction sel arbitrary: w)
  case Nil
  show ?case by simp
next
  case (Cons r rs)
  then obtain te where te: "next_t_est detectable r = Inr te"
    using next_t_est_total [of r detectable] by auto
  have "set rs \<subseteq> fst ` set detectable" using Cons.prems by simp
  from Cons.IH [OF this, of "launch_for r te w"] te show ?case by simp
qed

lemma detect_and_launch_total: "\<exists>w'. detect_and_launch threats w = Inr w'"
proof (cases "detect (defense w) (threat_store w) threats = []")
  case True
  then show ?thesis by (simp add: detect_and_launch_def)
next
  case False
  let ?det = "sort_key snd (detect (defense w) (threat_store w) threats)"
  let ?k = "max_interceptors (defense w) - int (length (interceptors (defense w)))"
  obtain sel where sel: "assign_interceptors_csp (map fst ?det) ?k = Inr sel"
    "set sel \<subseteq> set (map fst ?det)"
    using assign_interceptors_csp_total [of "map fst ?det" ?k] by blast
  then have "set sel \<subseteq> fst ` set ?det" by simp
  from launch_selected_total [OF this, of w] obtain w' where
    "launch_selected ?det sel w = Inr w'" by blast
  then have "detect_and_launch threats w = Inr w'"
    using sel(1) False by (simp add: detect_and_launch_def Let_def)
  then show ?thesis by blast
qed


lemma exec_total: "\<exists>w'. exec c w = Inr w'"
proof (cases c)
  case (DetectAndLaunch ths)
  then show ?thesis using detect_and_launch_total [of ths w] by simp
qed simp_all

lemma run_total: "\<exists>w'. run cs w = Inr w'"
proof (induction cs arbitrary: w)
  case Nil
  show ?case by simp
next
  case (Cons c cs)
  obtain w1 where w1: "exec c w = Inr w1" using exec_total by blast
  obtain w2 where "run cs w1 = Inr w2" using Cons by blast
  then show ?case using w1 by simp
qed

section \<open>Monotonicity\<close>

text \<open>
  Claim C9: every sequence of operations (the update of a threat, \<^verbatim>\<open>detect_and_launch\<close>,
  \<^verbatim>\<open>update\<close>, \<^verbatim>\<open>record_misses\<close>, a change of the settings, a manual intercept), from
  every state, runs to a final state without raising, and from the first state to the
  last no \<^verbatim>\<open>destroyed\<close> flag of a threat or of an interceptor and no \<^verbatim>\<open>hit_ground\<close> flag
  went from true to false, and \<^verbatim>\<open>total_launches\<close>, \<^verbatim>\<open>total_intercepted\<close> and
  \<^verbatim>\<open>total_missed\<close> did not decrease.
\<close>

theorem flags_and_counters_monotone:
  "\<exists>w'. run cs w = Inr w' \<and> monotone w w'"
  using run_total [of cs w] monotone_run by blast

theorem flags_and_counters_monotone_witness:
  "hit_ground (threat_store (initial_world base_defense
       [(new_Missile (vec 0 0 (- 5)) (vec 0 0 0) ''M1'')\<lparr>hit_ground := True\<rparr>]) ! 0)
   \<and> (\<exists>w'. run [ThreatUpdate 0 (1 / 100) (0, 0, 0), RecordMisses [0], Update (1 / 100) [0]]
          (initial_world base_defense
             [(new_Missile (vec 0 0 (- 5)) (vec 0 0 0) ''M1'')\<lparr>hit_ground := True\<rparr>]) = Inr w'
        \<and> hit_ground (threat_store w' ! 0)
        \<and> total_missed (defense w') \<ge> 0)"
proof -
  let ?w = "initial_world base_defense
       [(new_Missile (vec 0 0 (- 5)) (vec 0 0 0) ''M1'')\<lparr>hit_ground := True\<rparr>]"
  have h: "hit_ground (threat_store ?w ! 0)" "length (threat_store ?w) = 1"
    "total_missed (defense ?w) = 0"
    by (simp_all add: initial_world_def new_Missile_def new_Threat_def base_defense_def
        new_DefenseSystem_def)
  obtain w' where w': "run [ThreatUpdate 0 (1 / 100) (0, 0, 0), RecordMisses [0], Update (1 / 100) [0]] ?w = Inr w'"
    "monotone ?w w'"
    using flags_and_counters_monotone by blast
  from w'(2) h have "hit_ground (threat_store w' ! 0)" "total_missed (defense w') \<ge> 0"
    by (auto simp: monotone_def)
  with w'(1) h(1) show ?thesis by blast
qed

section \<open>Capacity\<close>

lemma map_fst_detect:
  "map fst (detect d ts rs) = filter (\<lambda>r. detectable_threat d (ts ! r)) rs"
  by (induction rs) (auto simp: detectable_threat_def Let_def split: option.splits)

lemma set_map_fst_insort_key: "set (map fst (insort_key f p ps)) = insert (fst p) (set (map fst ps))"
  by (induction ps) auto

lemma distinct_map_fst_insort_key:
  "distinct (map fst (insort_key f p ps)) = (fst p \<notin> fst ` set ps \<and> distinct (map fst ps))"
  by (induction ps) (auto simp: set_insort_key)

lemma distinct_map_fst_sort_key:
  "distinct (map fst (sort_key f ps)) = distinct (map fst ps)"
  by (induction ps) (auto simp: distinct_map_fst_insort_key)


lemma launch_for_fields [simp]:
  "interceptors (defense (launch_for r te w)) = interceptors (defense w) @ [length (interceptor_store w)]"
  "max_interceptors (defense (launch_for r te w)) = max_interceptors (defense w)"
  "length (interceptor_store (launch_for r te w)) = Suc (length (interceptor_store w))"
  "length (threat_store (launch_for r te w)) = length (threat_store w)"
  by (simp_all add: launch_for_def register_interceptor_def Let_def)



lemma still_missile_fields [simp]:
  "t_position (still_missile h nm) = vec 0 0 h"
  "t_velocity (still_missile h nm) = vec 0 0 0"
  "t_name (still_missile h nm) = nm"
  "t_destroyed (still_missile h nm) = False"
  "targeted (still_missile h nm) = False"
  "hit_ground (still_missile h nm) = False"
  "t_trail (still_missile h nm) = []"
  by (simp_all add: still_missile_def new_Missile_def new_Threat_def)

lemma base_defense_fields [simp]:
  "d_position base_defense = vec 0 0 0"
  "radar_range base_defense = 30000"
  "interceptor_speed base_defense = 10000"
  "max_interceptors base_defense = 30"
  "alert_callback base_defense = True"
  "interceptors base_defense = []"
  "total_launches base_defense = 0"
  "total_intercepted base_defense = 0"
  "total_missed base_defense = 0"
  "destruction_messages base_defense = []"
  by (simp_all add: base_defense_def new_DefenseSystem_def)

lemma magnitude_vertical [simp]: "magnitude (vec 0 0 h) = \<bar>h\<bar>"
  by (simp add: magnitude_def)

lemma vsub_zero [simp]: "vsub u (vec 0 0 0) = u"
  by (simp add: vsub_def)

lemma estimate_still_missile:
  assumes "0 < h" and "d_position d = vec 0 0 0" and "interceptor_speed d = 10000"
    and "t_position t = vec 0 0 h" and "t_velocity t = vec 0 0 0"
  shows "estimate_intercept_time d t = Some (h / 10000)"
proof -
  have c: "coeff_a d t = - 100000000" "coeff_b d t = 0" "coeff_c d t = h * h"
    using assms by (simp_all add: coeff_a_def coeff_b_def coeff_c_def dot_def)
  have s: "sqrt (400000000 * (h * h)) = 20000 * h"
    using assms(1) by (intro real_sqrt_unique) (simp_all add: power2_eq_square)
  show ?thesis
    using assms(1) by (simp add: estimate_unfold c Let_def s)
qed



lemma initial_world_fields [simp]:
  "threat_store (initial_world d ts) = ts"
  "interceptor_store (initial_world d ts) = []"
  "defense (initial_world d ts) = d"
  "alerts (initial_world d ts) = []"
  by (simp_all add: initial_world_def)

lemma configure_fields [simp]:
  "threat_store (configure rr sp mx w) = threat_store w"
  "interceptor_store (configure rr sp mx w) = interceptor_store w"
  "interceptors (defense (configure rr sp mx w)) = interceptors (defense w)"
  "max_interceptors (defense (configure rr sp mx w)) = mx"
  "radar_range (defense (configure rr sp mx w)) = rr"
  "interceptor_speed (defense (configure rr sp mx w)) = sp"
  "d_position (defense (configure rr sp mx w)) = d_position (defense w)"
  by (simp_all add: configure_def)







section \<open>Manual intercept\<close>

lemma manual_launch_fields [simp]:
  "interceptors (defense (manual_launch r te w)) = interceptors (defense w) @ [length (interceptor_store w)]"
  "total_launches (defense (manual_launch r te w)) = total_launches (defense w) + 1"
  "length (interceptor_store (manual_launch r te w)) = Suc (length (interceptor_store w))"
  "length (destruction_messages (defense (manual_launch r te w))) = Suc (length (destruction_messages (defense w)))"
  "length (alerts (manual_launch r te w)) = Suc (length (alerts w))"
  by (simp_all add: manual_launch_def register_interceptor_def Let_def)

text \<open>
  Claim C5, as the code has it: a manual intercept request with no selection, with a
  selection outside the list, against a threat that is destroyed or on the ground, or for
  which the intercept time is \<^verbatim>\<open>None\<close> or not positive, launches nothing and leaves the
  whole simulation state as it was: no interceptor appended, no counter changed, no
  \<^verbatim>\<open>targeted\<close> flag set, no event logged. (That the threat is targeted already is not
  among the tests of \<^verbatim>\<open>manual_intercept\<close>.)
\<close>

theorem manual_intercept_rejected:
  assumes "sel = [] \<or> \<not> hd sel < length threats
           \<or> t_destroyed (threat_store w ! (threats ! hd sel))
           \<or> hit_ground (threat_store w ! (threats ! hd sel))
           \<or> (\<forall>t_est. estimate_intercept_time (defense w) (threat_store w ! (threats ! hd sel))
                  = Some t_est \<longrightarrow> t_est \<le> 0)"
  shows "fst (manual_intercept sel threats w) \<noteq> Launched
       \<and> snd (manual_intercept sel threats w) = w"
  using assms
  by (auto simp: manual_intercept_def Let_def split: list.splits option.splits)

theorem manual_intercept_rejected_witness:
  "t_destroyed (threat_store (initial_world base_defense
      [(still_missile 10000 ''M1'')\<lparr>t_destroyed := True\<rparr>]) ! ([0] ! hd [0]))
   \<and> manual_intercept [0] [0] (initial_world base_defense
      [(still_missile 10000 ''M1'')\<lparr>t_destroyed := True\<rparr>])
     = (Invalid, initial_world base_defense [(still_missile 10000 ''M1'')\<lparr>t_destroyed := True\<rparr>])
   \<and> estimate_intercept_time base_defense (new_Missile (vec 0 1 0) (vec 20000 0 0) ''M2'') = None
   \<and> manual_intercept [0] [0] (initial_world base_defense
      [new_Missile (vec 0 1 0) (vec 20000 0 0) ''M2''])
     = (CannotIntercept, initial_world base_defense [new_Missile (vec 0 1 0) (vec 20000 0 0) ''M2''])"
proof -
  let ?w = "initial_world base_defense [(still_missile 10000 ''M1'')\<lparr>t_destroyed := True\<rparr>]"
  let ?w2 = "initial_world base_defense [new_Missile (vec 0 1 0) (vec 20000 0 0) ''M2'']"
  have h: "t_destroyed (threat_store ?w ! ([0] ! hd [0]))" by simp
  have e: "estimate_intercept_time base_defense (new_Missile (vec 0 1 0) (vec 20000 0 0) ''M2'') = None"
    by (simp add: estimate_intercept_time_def new_Missile_def new_Threat_def dot_def vsub_def Let_def)
  have f1: "fst (manual_intercept [0] [0] ?w) = Invalid"
    by (simp add: manual_intercept_def)
  have nf: "\<not> t_destroyed (new_Missile (vec 0 1 0) (vec 20000 0 0) ''M2'')"
    "\<not> hit_ground (new_Missile (vec 0 1 0) (vec 20000 0 0) ''M2'')"
    by (simp_all add: new_Missile_def new_Threat_def)
  have f2: "fst (manual_intercept [0] [0] ?w2) = CannotIntercept"
    by (simp add: manual_intercept_def e nf Let_def)
  have "snd (manual_intercept [0] [0] ?w) = ?w"
    using manual_intercept_rejected [of "[0]" "[0]" ?w] h by simp
  moreover have "snd (manual_intercept [0] [0] ?w2) = ?w2"
    using manual_intercept_rejected [of "[0]" "[0]" ?w2] e by simp
  ultimately show ?thesis using h e f1 f2 by (simp add: prod_eq_iff)
qed

text \<open>
  A live threat whose \<^verbatim>\<open>targeted\<close> flag is set, with a feasible intercept: the request is
  not rejected. An interceptor is appended, \<^verbatim>\<open>total_launches\<close> becomes 1 and an event is
  logged.
\<close>

theorem manual_intercept_targeted_counterexample:
  "targeted (threat_store (initial_world base_defense
      [(still_missile 10000 ''M1'')\<lparr>targeted := True\<rparr>]) ! 0)
   \<and> fst (manual_intercept [0] [0] (initial_world base_defense
      [(still_missile 10000 ''M1'')\<lparr>targeted := True\<rparr>])) = Launched
   \<and> interceptors (defense (snd (manual_intercept [0] [0] (initial_world base_defense
      [(still_missile 10000 ''M1'')\<lparr>targeted := True\<rparr>])))) = [0]
   \<and> total_launches (defense (snd (manual_intercept [0] [0] (initial_world base_defense
      [(still_missile 10000 ''M1'')\<lparr>targeted := True\<rparr>])))) = 1
   \<and> length (destruction_messages (defense (snd (manual_intercept [0] [0] (initial_world base_defense
      [(still_missile 10000 ''M1'')\<lparr>targeted := True\<rparr>]))))) = 1
   \<and> snd (manual_intercept [0] [0] (initial_world base_defense
      [(still_missile 10000 ''M1'')\<lparr>targeted := True\<rparr>]))
     \<noteq> initial_world base_defense [(still_missile 10000 ''M1'')\<lparr>targeted := True\<rparr>]"
proof -
  let ?t = "(still_missile 10000 ''M1'')\<lparr>targeted := True\<rparr>"
  let ?w = "initial_world base_defense [?t]"
  have e: "estimate_intercept_time base_defense ?t = Some 1"
    using estimate_still_missile [of 10000 base_defense ?t] by simp
  have m: "manual_intercept [0] [0] ?w = (Launched, manual_launch 0 1 ?w)"
    by (simp add: manual_intercept_def e Let_def)
  have "total_launches (defense (manual_launch 0 1 ?w)) \<noteq> total_launches (defense ?w)"
    by simp
  then have "manual_launch 0 1 ?w \<noteq> ?w" by metis
  then show ?thesis unfolding m by simp
qed

section \<open>Collisions\<close>

lemma intercept_fields [simp]:
  "threat_store (intercept r j w) = (threat_store w)[r := (threat_store w ! r)\<lparr>t_destroyed := True\<rparr>]"
  "interceptor_store (intercept r j w) = (interceptor_store w)[j := (interceptor_store w ! j)\<lparr>i_destroyed := True\<rparr>]"
  "interceptors (defense (intercept r j w)) = interceptors (defense w)"
  "total_intercepted (defense (intercept r j w)) = total_intercepted (defense w) + 1"
  "total_launches (defense (intercept r j w)) = total_launches (defense w)"
  "total_missed (defense (intercept r j w)) = total_missed (defense w)"
  "max_interceptors (defense (intercept r j w)) = max_interceptors (defense w)"
  by (simp_all add: intercept_def Let_def)

lemma same_places_refl: "same_places w w"
  by (simp add: same_places_def)

lemma same_places_trans: "same_places w1 w2 \<Longrightarrow> same_places w2 w3 \<Longrightarrow> same_places w1 w3"
  by (simp add: same_places_def)

lemma same_places_intercept: "same_places w (intercept r j w)"
  by (simp add: same_places_def nth_update_any)

lemma same_places_scan_interceptors: "same_places w (scan_interceptors r js w)"
proof (induction js arbitrary: w)
  case Nil
  show ?case by (simp add: same_places_refl)
next
  case (Cons j js)
  show ?case
    using same_places_trans [OF same_places_intercept Cons.IH] Cons.IH
    by (simp add: Let_def)
qed

lemma same_places_scan_threats: "same_places w (scan_threats rs w)"
proof (induction rs arbitrary: w)
  case Nil
  show ?case by (simp add: same_places_refl)
next
  case (Cons r rs)
  show ?case
    using same_places_trans [OF same_places_scan_interceptors Cons.IH] Cons.IH
    by simp
qed





lemma same_places_fields:
  assumes "same_places w w'"
  shows "length (threat_store w') = length (threat_store w)"
    and "length (interceptor_store w') = length (interceptor_store w)"
    and "interceptors (defense w') = interceptors (defense w)"
    and "hit_ground (threat_store w' ! r) = hit_ground (threat_store w ! r)"
    and "targeted (threat_store w' ! r) = targeted (threat_store w ! r)"
    and "target (interceptor_store w' ! j) = target (interceptor_store w ! j)"
  using assms by (simp_all add: same_places_def)






lemma update_interceptor_frame [simp]:
  "length (interceptor_store (update_interceptor dt j w)) = length (interceptor_store w)"
  "length (threat_store (update_interceptor dt j w)) = length (threat_store w)"
  "defense (update_interceptor dt j w) = defense w"
  by (auto simp: update_interceptor_def Interceptor_update_def release_target_def Let_def
      split: option.splits)

lemma advance_interceptors_frame [simp]:
  "length (interceptor_store (advance_interceptors dt js w)) = length (interceptor_store w)"
  "length (threat_store (advance_interceptors dt js w)) = length (threat_store w)"
  "defense (advance_interceptors dt js w) = defense w"
  by (induction js arbitrary: w) simp_all

lemma advanced_frame [simp]:
  "length (interceptor_store (advanced dt w)) = length (interceptor_store w)"
  "length (threat_store (advanced dt w)) = length (threat_store w)"
  "defense (advanced dt w) = defense w"
  by (simp_all add: advanced_def)

lemma remove_destroyed_fields [simp]:
  "threat_store (remove_destroyed w) = threat_store w"
  "interceptor_store (remove_destroyed w) = interceptor_store w"
  "interceptors (defense (remove_destroyed w))
     = filter (\<lambda>i. \<not> i_destroyed (interceptor_store w ! i)) (interceptors (defense w))"
  "total_intercepted (defense (remove_destroyed w)) = total_intercepted (defense w)"
  "total_launches (defense (remove_destroyed w)) = total_launches (defense w)"
  "total_missed (defense (remove_destroyed w)) = total_missed (defense w)"
  "max_interceptors (defense (remove_destroyed w)) = max_interceptors (defense w)"
  by (simp_all add: remove_destroyed_def)

lemma DefenseSystem_update_advanced:
  "DefenseSystem_update dt threats w = remove_destroyed (scan_threats threats (advanced dt w))"
  by (simp add: DefenseSystem_update_def advanced_def)


lemma crowded_world_fields [simp]:
  "threat_store crowded_world = [still_missile 100 ''M1'', still_missile 150 ''M2'']"
  "interceptor_store crowded_world = [new_Interceptor (vec 0 0 0) (vec 0 0 10000) ''I1'' (Some 0) 3]"
  "interceptors (defense crowded_world) = [0]"
  "total_intercepted (defense crowded_world) = 0"
  by (simp_all add: crowded_world_def)








section \<open>The targeted flag\<close>

lemma well_engaged_step:
  assumes we: "well_engaged w"
    and sub: "set (interceptors (defense w')) \<subseteq> set (interceptors (defense w))"
    and len: "length (threat_store w') = length (threat_store w)"
    and ic: "\<forall>j \<in> set (interceptors (defense w')).
              j < length (interceptor_store w') \<and> \<not> i_destroyed (interceptor_store w' ! j)
              \<and> target (interceptor_store w' ! j) = target (interceptor_store w ! j)"
    and lv: "\<forall>r < length (threat_store w). live (threat_store w' ! r) \<longrightarrow> live (threat_store w ! r)"
    and tg: "\<forall>j \<in> set (interceptors (defense w')). \<forall>r.
              target (interceptor_store w ! j) = Some r \<and> live (threat_store w' ! r)
              \<and> targeted (threat_store w ! r) \<longrightarrow> targeted (threat_store w' ! r)"
  shows "well_engaged w'"
  unfolding well_engaged_def
proof (intro conjI ballI allI impI)
  fix j assume j: "j \<in> set (interceptors (defense w'))"
  show "j < length (interceptor_store w')" using ic j by blast
  show "\<not> i_destroyed (interceptor_store w' ! j)" using ic j by blast
next
  fix j r assume j: "j \<in> set (interceptors (defense w'))"
    and t: "target (interceptor_store w' ! j) = Some r"
  have "target (interceptor_store w ! j) = Some r" using ic j t by simp
  then show "r < length (threat_store w')"
    using we j sub len unfolding well_engaged_def by (metis subsetD)
next
  fix j j' r assume j: "j \<in> set (interceptors (defense w'))"
    and j': "j' \<in> set (interceptors (defense w'))"
    and h: "target (interceptor_store w' ! j) = Some r \<and> target (interceptor_store w' ! j') = Some r
            \<and> live (threat_store w' ! r)"
  have t: "target (interceptor_store w ! j) = Some r" "target (interceptor_store w ! j') = Some r"
    using ic j j' h by simp_all
  have jj: "j \<in> set (interceptors (defense w))" "j' \<in> set (interceptors (defense w))"
    using j j' sub by auto
  have r: "r < length (threat_store w)"
    using we jj(1) t(1) unfolding well_engaged_def by blast
  then have "live (threat_store w ! r)" using lv h by blast
  then show "j = j'" using we jj t unfolding well_engaged_def by blast
next
  fix j r assume j: "j \<in> set (interceptors (defense w'))"
    and h: "target (interceptor_store w' ! j) = Some r \<and> live (threat_store w' ! r)"
  have t: "target (interceptor_store w ! j) = Some r" using ic j h by simp
  have jj: "j \<in> set (interceptors (defense w))" using j sub by auto
  have r: "r < length (threat_store w)"
    using we jj t unfolding well_engaged_def by blast
  then have "live (threat_store w ! r)" using lv h by blast
  then have "targeted (threat_store w ! r)" using we jj t unfolding well_engaged_def by blast
  then show "targeted (threat_store w' ! r)" using tg j t h by blast
qed

lemma well_engaged_fields:
  assumes "well_engaged w" and "j \<in> set (interceptors (defense w))"
  shows "j < length (interceptor_store w)" and "\<not> i_destroyed (interceptor_store w ! j)"
    and "target (interceptor_store w ! j) = Some r \<Longrightarrow> r < length (threat_store w)"
    and "target (interceptor_store w ! j) = Some r \<Longrightarrow> live (threat_store w ! r)
         \<Longrightarrow> targeted (threat_store w ! r)"
    and "target (interceptor_store w ! j) = Some r \<Longrightarrow> live (threat_store w ! r)
         \<Longrightarrow> j' \<in> set (interceptors (defense w)) \<Longrightarrow> target (interceptor_store w ! j') = Some r
         \<Longrightarrow> j' = j"
  using assms unfolding well_engaged_def by blast+

lemma well_engaged_configure: "well_engaged w \<Longrightarrow> well_engaged (configure rr sp mx w)"
  by (rule well_engaged_step [of w]) (simp_all add: well_engaged_fields)

lemma update_threat_flags [simp]:
  "t_destroyed (update_threat dt draw t) = t_destroyed t"
  "hit_ground (update_threat dt draw t) = hit_ground t"
  "targeted (update_threat dt draw t) = targeted t"
  by (simp_all add: update_threat_def Threat_update_def Missile_update_def Jet_update_def
      split: kind.splits)

lemma well_engaged_threat_update:
  assumes "well_engaged w"
  shows "well_engaged (w\<lparr>threat_store := (threat_store w)[r := update_threat dt draw (threat_store w ! r)]\<rparr>)"
  by (rule well_engaged_step [OF assms])
     (simp_all add: well_engaged_fields [OF assms] nth_update_any live_def)

lemma well_engaged_miss:
  assumes "well_engaged w"
  shows "well_engaged (log_event msg ty
     (w\<lparr>threat_store := (threat_store w)[r := (threat_store w ! r)\<lparr>hit_ground := True, targeted := False\<rparr>],
        defense := (defense w)\<lparr>total_missed := total_missed (defense w) + 1\<rparr>\<rparr>))"
  by (rule well_engaged_step [OF assms])
     (auto simp: well_engaged_fields [OF assms] nth_update_any live_def)

lemma well_engaged_record_misses:
  "well_engaged w \<Longrightarrow> well_engaged (record_misses rs w)"
proof (induction rs arbitrary: w)
  case Nil
  then show ?case by simp
next
  case (Cons r rs)
  show ?case
    using Cons.IH [OF Cons.prems] Cons.IH [OF well_engaged_miss [OF Cons.prems]]
    by (simp add: Let_def)
qed

lemma launch_interceptor_fields [simp]:
  "target (launch_interceptor d ts r te) = Some r"
  "i_destroyed (launch_interceptor d ts r te) = False"
  by (simp_all add: launch_interceptor_def new_Interceptor_def Let_def)

lemma launch_for_stores:
  "interceptor_store (launch_for r te w)
     = interceptor_store w @ [launch_interceptor (defense w) (threat_store w) r te]"
  "threat_store (launch_for r te w) = (threat_store w)[r := (threat_store w ! r)\<lparr>targeted := True\<rparr>]"
  by (simp_all add: launch_for_def register_interceptor_def Let_def)

lemma well_engaged_launch_for:
  assumes we: "well_engaged w" and r: "r < length (threat_store w)"
    and lv: "live (threat_store w ! r)" and nt: "\<not> targeted (threat_store w ! r)"
  shows "well_engaged (launch_for r te w)"
proof -
  let ?w' = "launch_for r te w"
  let ?n = "length (interceptor_store w)"
  note f = well_engaged_fields [OF we]
  have L': "set (interceptors (defense ?w')) = insert ?n (set (interceptors (defense w)))"
    by simp
  have old: "\<And>j. j \<in> set (interceptors (defense w)) \<Longrightarrow>
      j < ?n \<and> interceptor_store ?w' ! j = interceptor_store w ! j"
    using f(1) by (simp add: launch_for_stores nth_append)
  have new: "target (interceptor_store ?w' ! ?n) = Some r" "\<not> i_destroyed (interceptor_store ?w' ! ?n)"
    by (simp_all add: launch_for_stores)
  have free: "\<And>j. j \<in> set (interceptors (defense w)) \<Longrightarrow> target (interceptor_store w ! j) \<noteq> Some r"
    using f(4) lv nt by blast
  have lv': "\<And>r'. live (threat_store ?w' ! r') = live (threat_store w ! r')"
    by (simp add: launch_for_stores nth_update_any live_def)
  have tg': "\<And>r'. targeted (threat_store ?w' ! r') = (targeted (threat_store w ! r') \<or> r' = r)"
    using r by (auto simp: launch_for_stores nth_update_any)
  show ?thesis
    unfolding well_engaged_def L'
  proof (intro conjI ballI allI impI)
    fix j assume "j \<in> insert ?n (set (interceptors (defense w)))"
    then show "j < length (interceptor_store ?w')" using f(1) by (auto simp: less_Suc_eq)
  next
    fix j assume "j \<in> insert ?n (set (interceptors (defense w)))"
    then show "\<not> i_destroyed (interceptor_store ?w' ! j)" using old new f(2) by auto
  next
    fix j r' assume "j \<in> insert ?n (set (interceptors (defense w)))"
      and "target (interceptor_store ?w' ! j) = Some r'"
    then show "r' < length (threat_store ?w')"
      using old new r f(3) by (auto simp: launch_for_stores)
  next
    fix j j' r' assume j: "j \<in> insert ?n (set (interceptors (defense w)))"
      and j': "j' \<in> insert ?n (set (interceptors (defense w)))"
      and h: "target (interceptor_store ?w' ! j) = Some r' \<and> target (interceptor_store ?w' ! j') = Some r'
              \<and> live (threat_store ?w' ! r')"
    show "j = j'"
    proof (cases "j = ?n")
      case True
      then have "r' = r" using h new by simp
      then show ?thesis using True j' h old free by auto
    next
      case False
      then have jo: "j \<in> set (interceptors (defense w))" using j by simp
      then have tj: "target (interceptor_store w ! j) = Some r'" using h old by simp
      show ?thesis
      proof (cases "j' = ?n")
        case True
        then have "r' = r" using h new by simp
        then show ?thesis using tj free jo by blast
      next
        case False
        then have j'o: "j' \<in> set (interceptors (defense w))" using j' by simp
        then have "target (interceptor_store w ! j') = Some r'" using h old by simp
        then show ?thesis using f(5) [OF jo tj _ j'o] h lv' by auto
      qed
    qed
  next
    fix j r' assume j: "j \<in> insert ?n (set (interceptors (defense w)))"
      and h: "target (interceptor_store ?w' ! j) = Some r' \<and> live (threat_store ?w' ! r')"
    show "targeted (threat_store ?w' ! r')"
    proof (cases "j = ?n")
      case True
      then show ?thesis using h new tg' by simp
    next
      case False
      then have jo: "j \<in> set (interceptors (defense w))" using j by simp
      then have "target (interceptor_store w ! j) = Some r'" using h old by simp
      then show ?thesis using f(4) [OF jo] h lv' tg' by simp
    qed
  qed
qed

lemma well_engaged_launch_selected:
  assumes "well_engaged w" and "distinct sel"
    and "\<forall>r \<in> set sel. r < length (threat_store w) \<and> live (threat_store w ! r)
           \<and> \<not> targeted (threat_store w ! r)"
    and "launch_selected detectable sel w = Inr w'"
  shows "well_engaged w'"
  using assms
proof (induction sel arbitrary: w)
  case Nil
  then show ?case by simp
next
  case (Cons r rs)
  from Cons.prems(4) obtain te where te: "next_t_est detectable r = Inr te"
    and rest: "launch_selected detectable rs (launch_for r te w) = Inr w'"
    by (auto split: sum.splits)
  have r: "r < length (threat_store w)" "live (threat_store w ! r)" "\<not> targeted (threat_store w ! r)"
    using Cons.prems(3) by simp_all
  have we1: "well_engaged (launch_for r te w)"
    by (rule well_engaged_launch_for [OF Cons.prems(1) r])
  have d: "distinct rs" and nr: "r \<notin> set rs" using Cons.prems(2) by simp_all
  have "\<forall>r' \<in> set rs. r' < length (threat_store (launch_for r te w))
      \<and> live (threat_store (launch_for r te w) ! r')
      \<and> \<not> targeted (threat_store (launch_for r te w) ! r')"
    using Cons.prems(3) nr by (auto simp: launch_for_stores nth_update_any live_def)
  from Cons.IH [OF we1 d this rest] show ?case .
qed

lemma detectable_live: "detectable_threat d t \<Longrightarrow> live t \<and> \<not> targeted t"
  by (simp add: detectable_threat_def live_def)

lemma set_map_fst_sort_key: "set (map fst (sort_key f ps)) = set (map fst ps)"
  by simp

lemma well_engaged_detect_and_launch:
  assumes we: "well_engaged w" and d: "distinct threats"
    and rng: "\<forall>r \<in> set threats. r < length (threat_store w)"
    and dl: "detect_and_launch threats w = Inr w'"
  shows "well_engaged w'"
proof (cases "detect (defense w) (threat_store w) threats = []")
  case True
  then show ?thesis using dl we by (simp add: detect_and_launch_def)
next
  case False
  let ?det = "sort_key snd (detect (defense w) (threat_store w) threats)"
  let ?k = "max_interceptors (defense w) - int (length (interceptors (defense w)))"
  let ?sel = "greedy_prefix (map fst ?det) ?k"
  have "distinct (map fst (detect (defense w) (threat_store w) threats))"
    using d by (simp add: map_fst_detect)
  then have dd: "distinct (map fst ?det)" by (simp only: distinct_map_fst_sort_key)
  have sel: "assign_interceptors_csp (map fst ?det) ?k = Inr ?sel"
    using assign_interceptors_csp_distinct [OF dd] .
  have ls: "launch_selected ?det ?sel w = Inr w'"
    using dl False sel by (simp add: detect_and_launch_def Let_def)
  have ds: "distinct ?sel" using dd by (simp add: greedy_prefix_def)
  have "set ?sel \<subseteq> set (map fst ?det)"
    by (auto simp: greedy_prefix_def dest: in_set_takeD)
  also have "\<dots> = set (map fst (detect (defense w) (threat_store w) threats))"
    by (rule set_map_fst_sort_key)
  also have "\<dots> = {r \<in> set threats. detectable_threat (defense w) (threat_store w ! r)}"
    by (simp only: map_fst_detect set_filter)
  finally have "\<forall>r \<in> set ?sel. r < length (threat_store w) \<and> live (threat_store w ! r)
      \<and> \<not> targeted (threat_store w ! r)"
    using rng detectable_live by blast
  from well_engaged_launch_selected [OF we ds this ls] show ?thesis .
qed

lemma update_interceptor_flags:
  "t_destroyed (threat_store (update_interceptor dt j w) ! r) = t_destroyed (threat_store w ! r)"
  "hit_ground (threat_store (update_interceptor dt j w) ! r) = hit_ground (threat_store w ! r)"
  "target (interceptor_store (update_interceptor dt j w) ! j') = target (interceptor_store w ! j')"
  by (auto simp: update_interceptor_def Interceptor_update_def release_target_def Let_def
      nth_update_any split: option.splits)

lemma update_interceptor_released:
  assumes "j < length (interceptor_store w)"
    and "targeted (threat_store w ! r)"
    and "\<not> targeted (threat_store (update_interceptor dt j w) ! r)"
  shows "i_destroyed (interceptor_store (update_interceptor dt j w) ! j)
       \<and> target (interceptor_store w ! j) = Some r"
  using assms
  by (auto simp: update_interceptor_def Interceptor_update_def release_target_def Let_def
      nth_update_any split: option.splits if_splits)

lemma advance_interceptors_flags:
  "t_destroyed (threat_store (advance_interceptors dt js w) ! r) = t_destroyed (threat_store w ! r)"
  "hit_ground (threat_store (advance_interceptors dt js w) ! r) = hit_ground (threat_store w ! r)"
  "target (interceptor_store (advance_interceptors dt js w) ! j') = target (interceptor_store w ! j')"
  by (induction js arbitrary: w) (simp_all add: update_interceptor_flags)

lemma advance_interceptors_released:
  assumes "\<forall>j \<in> set js. j < length (interceptor_store w)"
    and "targeted (threat_store w ! r)"
    and "\<not> targeted (threat_store (advance_interceptors dt js w) ! r)"
  shows "\<exists>j \<in> set js. i_destroyed (interceptor_store (advance_interceptors dt js w) ! j)
           \<and> target (interceptor_store w ! j) = Some r"
  using assms
proof (induction js arbitrary: w)
  case Nil
  then show ?case by simp
next
  case (Cons j js)
  let ?w' = "update_interceptor dt j w"
  have j: "j < length (interceptor_store w)" using Cons.prems(1) by simp
  have js: "\<forall>j \<in> set js. j < length (interceptor_store ?w')" using Cons.prems(1) by simp
  show ?case
  proof (cases "targeted (threat_store ?w' ! r)")
    case True
    from Cons.IH [OF js True] Cons.prems(3) obtain j' where
      "j' \<in> set js" "i_destroyed (interceptor_store (advance_interceptors dt js ?w') ! j')"
      "target (interceptor_store ?w' ! j') = Some r" by auto
    then show ?thesis by (auto simp: update_interceptor_flags)
  next
    case False
    from update_interceptor_released [OF j Cons.prems(2) False]
    have d: "i_destroyed (interceptor_store ?w' ! j)" and t: "target (interceptor_store w ! j) = Some r"
      by simp_all
    have "monotone ?w' (advance_interceptors dt js ?w')" by (rule monotone_advance_interceptors)
    then have "i_destroyed (interceptor_store (advance_interceptors dt js ?w') ! j)"
      using d j by (simp add: monotone_def)
    then show ?thesis using t by auto
  qed
qed

lemma well_engaged_update:
  assumes we: "well_engaged w"
  shows "well_engaged (DefenseSystem_update dt threats w)"
proof (rule well_engaged_step [OF we])
  let ?L = "interceptors (defense w)"
  let ?w1 = "advanced dt w"
  let ?w2 = "scan_threats threats ?w1"
  let ?w' = "DefenseSystem_update dt threats w"
  note f = well_engaged_fields [OF we]
  have sp: "same_places ?w1 ?w2" by (rule same_places_scan_threats)
  have m2: "monotone ?w1 ?w2" by (rule monotone_scan_threats)
  have L2: "interceptors (defense ?w2) = ?L" using same_places_fields(3) [OF sp] by simp
  have IS2: "length (interceptor_store ?w2) = length (interceptor_store w)"
    using same_places_fields(2) [OF sp] by simp
  have TS2: "length (threat_store ?w2) = length (threat_store w)"
    using same_places_fields(1) [OF sp] by simp
  have tg2: "\<And>j. target (interceptor_store ?w2 ! j) = target (interceptor_store w ! j)"
    using same_places_fields(6) [OF sp] by (simp add: advanced_def advance_interceptors_flags)
  have L': "interceptors (defense ?w') = filter (\<lambda>i. \<not> i_destroyed (interceptor_store ?w2 ! i)) ?L"
    by (simp add: DefenseSystem_update_advanced L2)
  show "set (interceptors (defense ?w')) \<subseteq> set ?L" unfolding L' by auto
  show "length (threat_store ?w') = length (threat_store w)"
    by (simp add: DefenseSystem_update_advanced TS2)
  show "\<forall>j \<in> set (interceptors (defense ?w')).
          j < length (interceptor_store ?w') \<and> \<not> i_destroyed (interceptor_store ?w' ! j)
          \<and> target (interceptor_store ?w' ! j) = target (interceptor_store w ! j)"
    unfolding L' using f(1) by (auto simp: DefenseSystem_update_advanced IS2 tg2)
  have lv1: "\<And>r. live (threat_store ?w1 ! r) = live (threat_store w ! r)"
    by (simp add: live_def advanced_def advance_interceptors_flags)
  have lv2: "\<And>r. r < length (threat_store w) \<Longrightarrow> live (threat_store ?w2 ! r)
      \<Longrightarrow> live (threat_store ?w1 ! r)"
    using m2 by (auto simp: monotone_def live_def)
  show "\<forall>r < length (threat_store w). live (threat_store ?w' ! r) \<longrightarrow> live (threat_store w ! r)"
    using lv1 lv2 by (simp add: DefenseSystem_update_advanced)
  show "\<forall>j \<in> set (interceptors (defense ?w')). \<forall>r.
          target (interceptor_store w ! j) = Some r \<and> live (threat_store ?w' ! r)
          \<and> targeted (threat_store w ! r) \<longrightarrow> targeted (threat_store ?w' ! r)"
  proof (intro ballI allI impI)
    fix j r assume j: "j \<in> set (interceptors (defense ?w'))"
      and h: "target (interceptor_store w ! j) = Some r \<and> live (threat_store ?w' ! r)
              \<and> targeted (threat_store w ! r)"
    have jL: "j \<in> set ?L" and nd: "\<not> i_destroyed (interceptor_store ?w2 ! j)"
      using j unfolding L' by auto
    have r: "r < length (threat_store w)" using f(3) [OF jL] h by blast
    have lw: "live (threat_store w ! r)"
      using h lv1 lv2 [OF r] by (simp add: DefenseSystem_update_advanced)
    show "targeted (threat_store ?w' ! r)"
    proof (rule ccontr)
      assume "\<not> targeted (threat_store ?w' ! r)"
      then have "\<not> targeted (threat_store ?w1 ! r)"
        using same_places_fields(5) [OF sp] by (simp add: DefenseSystem_update_advanced)
      then have "\<not> targeted (threat_store (advance_interceptors dt ?L w) ! r)"
        by (simp add: advanced_def)
      from advance_interceptors_released [OF _ _ this] f(1) h obtain j' where
        j': "j' \<in> set ?L" "i_destroyed (interceptor_store (advance_interceptors dt ?L w) ! j')"
          "target (interceptor_store w ! j') = Some r"
        by blast
      have "j' = j" using f(5) [OF jL _ lw j'(1) j'(3)] h by blast
      then have "i_destroyed (interceptor_store ?w1 ! j)" using j'(2) by (simp add: advanced_def)
      then have "i_destroyed (interceptor_store ?w2 ! j)"
        using m2 f(1) [OF jL] by (simp add: monotone_def)
      then show False using nd by simp
    qed
  qed
qed

lemma well_engaged_exec:
  assumes "well_engaged w" and "automatic (length (threat_store w)) c" and "exec c w = Inr w'"
  shows "well_engaged w'"
proof (cases c)
  case (ThreatUpdate r dt draw)
  then show ?thesis
    using assms well_engaged_threat_update [OF assms(1), of r dt draw] by simp
next
  case (RecordMisses ths)
  then show ?thesis using assms well_engaged_record_misses by auto
next
  case (Configure rr sp mx)
  then show ?thesis using assms well_engaged_configure by auto
next
  case (DetectAndLaunch ths)
  then show ?thesis
    using assms well_engaged_detect_and_launch [of w ths w'] by (auto simp: list_all_iff)
next
  case (Update dt ths)
  then show ?thesis using assms well_engaged_update by auto
next
  case (ManualIntercept sel ths)
  then show ?thesis using assms by simp
qed

lemma well_engaged_run:
  assumes "well_engaged w" and "\<forall>c \<in> set cs. automatic (length (threat_store w)) c"
    and "run cs w = Inr w'"
  shows "well_engaged w'"
  using assms
proof (induction cs arbitrary: w)
  case Nil
  then show ?case by simp
next
  case (Cons c cs)
  from Cons.prems(3) obtain w1 where w1: "exec c w = Inr w1" "run cs w1 = Inr w'"
    by (auto split: sum.splits)
  have we1: "well_engaged w1"
    using well_engaged_exec [OF Cons.prems(1) _ w1(1)] Cons.prems(2) by simp
  have "length (threat_store w1) = length (threat_store w)"
    using monotone_exec [OF w1(1)] by (simp add: monotone_def)
  then have "\<forall>c \<in> set cs. automatic (length (threat_store w1)) c" using Cons.prems(2) by simp
  from Cons.IH [OF we1 this w1(2)] show ?case .
qed


text \<open>A round of the simulation loop is a sequence of these operations.\<close>

lemma run_append:
  "run (cs @ cs') w = (case run cs w of Inl e \<Rightarrow> Inl e | Inr w' \<Rightarrow> run cs' w')"
  by (induction cs arbitrary: w) (auto split: sum.splits)

lemma update_threats_run:
  "\<exists>cs. (\<forall>c \<in> set cs. automatic n c) \<and> run cs w = Inr (update_threats dt draws threats rs w)"
proof (induction rs arbitrary: w)
  case Nil
  have "(\<forall>c \<in> set []. automatic n c) \<and> run [] w = Inr (update_threats dt draws threats [] w)"
    by simp
  then show ?case by blast
next
  case (Cons r rs)
  let ?w1 = "w\<lparr>threat_store :=
      (threat_store w)[r := update_threat dt (draws r) (threat_store w ! r)]\<rparr>"
  let ?miss = "\<not> t_destroyed (threat_store ?w1 ! r) \<and> \<not> hit_ground (threat_store ?w1 ! r)
      \<and> z (t_position (threat_store ?w1 ! r)) \<le> 0"
  let ?w2 = "if ?miss then record_misses threats ?w1 else ?w1"
  let ?pre = "ThreatUpdate r dt (draws r) # (if ?miss then [RecordMisses threats] else [])"
  from Cons [of ?w2] obtain cs where cs: "\<forall>c \<in> set cs. automatic n c"
    "run cs ?w2 = Inr (update_threats dt draws threats rs ?w2)" by blast
  have p: "run ?pre w = Inr ?w2" by simp
  have "run (?pre @ cs) w = Inr (update_threats dt draws threats (r # rs) w)"
    unfolding run_append p using cs(2) by (simp add: Let_def)
  moreover have "\<forall>c \<in> set (?pre @ cs). automatic n c" using cs(1) by auto
  ultimately show ?case by blast
qed

lemma simulation_step_run:
  assumes "distinct threats" and "list_all (\<lambda>r. r < n) threats"
  shows "\<exists>cs. (\<forall>c \<in> set cs. automatic n c)
           \<and> simulation_step dt draws rr sp mx threats w = run cs w"
proof -
  from update_threats_run [of n w dt draws threats threats] obtain cs where
    cs: "\<forall>c \<in> set cs. automatic n c"
      "run cs w = Inr (update_threats dt draws threats threats w)" by blast
  let ?post = "[Configure rr sp mx, DetectAndLaunch threats, Update dt threats]"
  have "run (cs @ ?post) w = simulation_step dt draws rr sp mx threats w"
    unfolding run_append cs(2) by (simp add: simulation_step_def Let_def split: sum.splits)
  moreover have "\<forall>c \<in> set (cs @ ?post). automatic n c" using cs(1) assms by simp
  ultimately show ?thesis by metis
qed

lemma well_engaged_simulation_step:
  assumes "well_engaged w" and "distinct threats"
    and "list_all (\<lambda>r. r < length (threat_store w)) threats"
    and "simulation_step dt draws rr sp mx threats w = Inr w'"
  shows "well_engaged w'"
proof -
  from simulation_step_run [OF assms(2,3), of dt draws rr sp mx w] obtain cs where
    "\<forall>c \<in> set cs. automatic (length (threat_store w)) c" "run cs w = Inr w'"
    using assms(4) by auto
  then show ?thesis using well_engaged_run [OF assms(1)] by blast
qed




lemma stacked_world_fields [simp]:
  "threat_store stacked_world = [still_missile 10100 ''M2'', still_missile 10000 ''M1'']"
  "interceptor_store stacked_world = []"
  "defense stacked_world = base_defense\<lparr>max_interceptors := 1\<rparr>"
  by (simp_all add: stacked_world_def)









end
